theory Spec2Isabelle
  imports Complex_Main "HOL-Library.AList" "HOL-Library.Sublist"
begin

section \<open>CUA annotation tool: the data pipeline of \<^verbatim>\<open>app.py\<close>\<close>

text \<open>
  The development embeds the request handlers and helpers of \<^verbatim>\<open>app.py\<close> as HOL functions.
  Conventions used throughout:
  \<^item> a Python \<^verbatim>\<open>dict\<close> loaded from a JSON file is an association list with the dict's
    insertion order; \<^verbatim>\<open>d[k] = v\<close> is \<^const>\<open>AList.update\<close> (replace in place, or append),
    \<^verbatim>\<open>k in d\<close> and \<^verbatim>\<open>d[k]\<close> are \<^const>\<open>map_of\<close>;
  \<^item> a JSON field that may be missing is an \<open>option\<close>: \<open>None\<close> is what \<^verbatim>\<open>d.get(k)\<close>
    returns for it;
  \<^item> the JSON files on disk are the state, passed in and returned explicitly.
\<close>

subsection \<open>Rendering integers as Python's f-strings do\<close>

fun str_nat :: "nat \<Rightarrow> string" where
  "str_nat n = (if n < 10 then [''0123456789'' ! n]
                else str_nat (n div 10) @ [''0123456789'' ! (n mod 10)])"

declare str_nat.simps [simp del]

definition str_int :: "int \<Rightarrow> string" where
  "str_int i = (if i < 0 then CHR ''-'' # str_nat (nat (- i)) else str_nat (nat i))"

text \<open>\<^verbatim>\<open>f"{v}"\<close> for a value that is an integer or Python's \<^verbatim>\<open>None\<close>.\<close>

definition fmt :: "int option \<Rightarrow> string" where
  "fmt v = (case v of None \<Rightarrow> ''None'' | Some i \<Rightarrow> str_int i)"

subsection \<open>Coordinate adjustment store (\<^verbatim>\<open>coordinate_adjustments.json\<close>)\<close>

record point =
  pt_x :: "int option"
  pt_y :: "int option"

text \<open>
  One entry of the overlay file. \<open>adj_original\<close> is \<open>None\<close> for an entry that has no
  \<^verbatim>\<open>'original'\<close> key (the handler tests for the key before reading it).
\<close>

record adjustment =
  adj_task_id :: string
  adj_step_index :: int
  adj_x :: "int option"
  adj_y :: "int option"
  adj_original :: "point option"

type_synonym coord_store = "(string \<times> adjustment) list"

text \<open>The JSON body of \<^verbatim>\<open>POST /api/update_coordinate\<close>.\<close>

record coord_request =
  rq_task_id :: string
  rq_step_index :: int
  rq_x :: "int option"
  rq_y :: "int option"
  rq_original_x :: "int option"
  rq_original_y :: "int option"

text \<open>\<^verbatim>\<open>key = f"{task_id}_{step_index}"\<close>\<close>

definition adj_key :: "string \<Rightarrow> int \<Rightarrow> string" where
  "adj_key task_id step_index = task_id @ ''_'' @ str_int step_index"

definition rq_key :: "coord_request \<Rightarrow> string" where
  "rq_key r = adj_key (rq_task_id r) (rq_step_index r)"

definition rq_original :: "coord_request \<Rightarrow> point" where
  "rq_original r = \<lparr>pt_x = rq_original_x r, pt_y = rq_original_y r\<rparr>"

text \<open>
  \<^verbatim>\<open>api_update_coordinate\<close>: the file's content before the call is the first argument, the
  content written back is the result.
\<close>

definition api_update_coordinate :: "coord_store \<Rightarrow> coord_request \<Rightarrow> coord_store" where
  "api_update_coordinate coord_adjustments r =
     (let key = rq_key r;
          original =
            (case map_of coord_adjustments key of
               Some e \<Rightarrow> (case adj_original e of
                            Some orig \<Rightarrow> orig
                          | None \<Rightarrow> rq_original r)
             | None \<Rightarrow> rq_original r)
      in AList.update key
           \<lparr>adj_task_id = rq_task_id r, adj_step_index = rq_step_index r,
            adj_x = rq_x r, adj_y = rq_y r, adj_original = Some original\<rparr>
           coord_adjustments)"

text \<open>The original that a call with request \<open>r\<close> stores under its key in store \<open>s\<close>.\<close>

definition kept_original :: "coord_store \<Rightarrow> coord_request \<Rightarrow> point" where
  "kept_original s r =
     (case map_of s (rq_key r) of
        Some e \<Rightarrow> (case adj_original e of Some orig \<Rightarrow> orig | None \<Rightarrow> rq_original r)
      | None \<Rightarrow> rq_original r)"

subsection \<open>Strings: Python's \<^verbatim>\<open>in\<close>, \<^verbatim>\<open>lower\<close>, \<^verbatim>\<open>isdigit\<close>, \<^verbatim>\<open>int\<close>\<close>

text \<open>
  A \<^typ>\<open>string\<close> is the UTF-8 byte sequence of the Python \<^verbatim>\<open>str\<close>. \<^verbatim>\<open>sub in s\<close> is
  \<^const>\<open>sublist\<close> (a contiguous sublist). \<^verbatim>\<open>s.lower()\<close> is modelled on the ASCII letters; the
  bytes of other characters are left as they are.
\<close>

definition lower_char :: "char \<Rightarrow> char" where
  "lower_char c =
     (case map_of (zip ''ABCDEFGHIJKLMNOPQRSTUVWXYZ'' ''abcdefghijklmnopqrstuvwxyz'') c of
        Some l \<Rightarrow> l
      | None \<Rightarrow> c)"

definition lower :: "string \<Rightarrow> string" where
  "lower s = map lower_char s"

definition is_digit :: "char \<Rightarrow> bool" where
  "is_digit c = (c \<in> set ''0123456789'')"

text \<open>The ASCII characters that \<^verbatim>\<open>\s\<close> matches in a \<^verbatim>\<open>str\<close> pattern.\<close>

definition is_space :: "char \<Rightarrow> bool" where
  "is_space c = (c \<in> set [CHR 0x09, CHR 0x0A, CHR 0x0B, CHR 0x0C, CHR 0x0D,
                            CHR 0x1C, CHR 0x1D, CHR 0x1E, CHR 0x1F, CHR 0x20])"

definition isdigit :: "string \<Rightarrow> bool" where
  "isdigit s = (s \<noteq> [] \<and> list_all is_digit s)"

definition digit_val :: "char \<Rightarrow> nat" where
  "digit_val c = (case map_of (zip ''0123456789'' [0, 1, 2, 3, 4, 5, 6, 7, 8, 9]) c of
                    Some d \<Rightarrow> d
                  | None \<Rightarrow> 0)"

text \<open>\<^verbatim>\<open>int(s)\<close> for a string of decimal digits.\<close>

definition int_of_digits :: "string \<Rightarrow> nat" where
  "int_of_digits s = foldl (\<lambda>a c. 10 * a + digit_val c) 0 s"

subsection \<open>The regular expressions of \<^verbatim>\<open>app.py\<close>\<close>

text \<open>
  Each pattern is a sequence of literals, \<^verbatim>\<open>(\d+)\<close> groups and \<^verbatim>\<open>\s*\<close>. In every pattern the
  character after a \<^verbatim>\<open>\d+\<close> group is not a digit and the one after \<^verbatim>\<open>\s*\<close> is not a space,
  so the greedy match is the only one: backtracking never finds another. A matcher takes
  the text at one position and returns the groups; \<open>re_search\<close> tries the positions from
  left to right, as \<^verbatim>\<open>re.search\<close> does.
\<close>

definition lit :: "string \<Rightarrow> string \<Rightarrow> string option" where
  "lit l s = (if take (length l) s = l then Some (drop (length l) s) else None)"

definition digits1 :: "string \<Rightarrow> (string \<times> string) option" where
  "digits1 s = (let g = takeWhile is_digit s
                in if g = [] then None else Some (g, dropWhile is_digit s))"

definition spaces :: "string \<Rightarrow> string" where
  "spaces s = dropWhile is_space s"

fun re_search :: "(string \<Rightarrow> 'g option) \<Rightarrow> string \<Rightarrow> 'g option" where
  "re_search m [] = m []"
| "re_search m (c # cs) = (case m (c # cs) of Some g \<Rightarrow> Some g | None \<Rightarrow> re_search m cs)"

text \<open>\<^verbatim>\<open>\((\d+),\s*(\d+)\)\<close>, the text after the opening word: the two groups and the rest.\<close>

definition pair_args :: "string \<Rightarrow> ((string \<times> string) \<times> string) option" where
  "pair_args s =
     (case lit ''('' s of None \<Rightarrow> None | Some s1 \<Rightarrow>
      case digits1 s1 of None \<Rightarrow> None | Some (g1, s2) \<Rightarrow>
      case lit '','' s2 of None \<Rightarrow> None | Some s3 \<Rightarrow>
      case digits1 (spaces s3) of None \<Rightarrow> None | Some (g2, s4) \<Rightarrow>
      case lit '')'' s4 of None \<Rightarrow> None | Some s5 \<Rightarrow> Some ((g1, g2), s5))"

text \<open>\<^verbatim>\<open>Drag from \((\d+),\s*(\d+)\) to \((\d+),\s*(\d+)\)\<close>\<close>

definition drag_from_to :: "string \<Rightarrow> ((string \<times> string) \<times> (string \<times> string)) option" where
  "drag_from_to s =
     (case lit ''Drag from '' s of None \<Rightarrow> None | Some s1 \<Rightarrow>
      case pair_args s1 of None \<Rightarrow> None | Some (a, s2) \<Rightarrow>
      case lit '' to '' s2 of None \<Rightarrow> None | Some s3 \<Rightarrow>
      case pair_args s3 of None \<Rightarrow> None | Some (b, s4) \<Rightarrow> Some (a, b))"

text \<open>\<^verbatim>\<open>dragTo\((\d+),\s*(\d+)\)\<close>\<close>

definition drag_to :: "string \<Rightarrow> (string \<times> string) option" where
  "drag_to s =
     (case lit ''dragTo'' s of None \<Rightarrow> None | Some s1 \<Rightarrow>
      case pair_args s1 of None \<Rightarrow> None | Some (b, s2) \<Rightarrow> Some b)"

text \<open>
  The scroll and keyboard markers of the descriptions, as the bytes that the source file
  holds between the quotes of the patterns.
\<close>

definition down_marker :: string where
  "down_marker = [CHR 0xE2, CHR 0x80, CHR 0x9A, CHR 0xC2, CHR 0xA8, CHR 0xC3, CHR 0xA1,
                  CHR 0xC3, CHR 0x94, CHR 0xE2, CHR 0x88, CHR 0x8F, CHR 0xC3, CHR 0xA8,
                  CHR 0xE2, CHR 0x88, CHR 0x9A, CHR 0xC3, CHR 0xB3]"

definition up_marker :: string where
  "up_marker = [CHR 0xE2, CHR 0x80, CHR 0x9A, CHR 0xC2, CHR 0xA8, CHR 0xC3, CHR 0x9C,
                CHR 0xC3, CHR 0x94, CHR 0xE2, CHR 0x88, CHR 0x8F, CHR 0xC3, CHR 0xA8,
                CHR 0xE2, CHR 0x88, CHR 0x9A, CHR 0xC3, CHR 0xB3]"

definition keyboard_marker :: string where
  "keyboard_marker = [CHR 0xE2, CHR 0x80, CHR 0x9A, CHR 0xC3, CHR 0xA5, CHR 0xC2, CHR 0xAE,
                      CHR 0xC3, CHR 0x94, CHR 0xE2, CHR 0x88, CHR 0x8F, CHR 0xC3, CHR 0xA8]"

text \<open>A marker followed by \<^verbatim>\<open>(\d+)\<close>.\<close>

definition marker_count :: "string \<Rightarrow> string \<Rightarrow> string option" where
  "marker_count marker s =
     (case lit marker s of None \<Rightarrow> None | Some s1 \<Rightarrow>
      case digits1 s1 of None \<Rightarrow> None | Some (g, s2) \<Rightarrow> Some g)"

text \<open>
  The keyboard marker, a word and \<^verbatim>\<open>(.+)\<close>: the group runs to the end of the line and
  has at least one character.
\<close>

definition keyboard_text :: "string \<Rightarrow> string \<Rightarrow> string option" where
  "keyboard_text word s =
     (case lit (keyboard_marker @ word) s of None \<Rightarrow> None | Some s1 \<Rightarrow>
      let g = takeWhile (\<lambda>c. c \<noteq> CHR 0x0A) s1 in if g = [] then None else Some g)"


subsection \<open>Raw events and steps\<close>

text \<open>
  A line of \<^verbatim>\<open>reduced_events_complete.jsonl\<close>. A field is \<open>None\<close> when the key is missing
  from the JSON object. Coordinates are pixel positions, timestamps are seconds; the
  timestamps are rationals here, so the arithmetic on them is exact. \<open>ev_pre_move = None\<close>
  stands for a missing, null or empty \<^verbatim>\<open>pre_move\<close> (all three are falsy in Python).
\<close>

record pre_move =
  pm_start_time :: "rat option"
  pm_end_time :: "rat option"

record raw_event =
  ev_action :: "string option"
  ev_coordinate :: "point option"
  ev_start_time :: "rat option"
  ev_pre_move :: "pre_move option"
  ev_description :: "string option"
  ev_justification :: "string option"

text \<open>A line of \<^verbatim>\<open>reduced_events_vis.jsonl\<close>: only its description is read.\<close>

record vis_event =
  ve_description :: "string option"

record step =
  st_index :: nat
  st_action :: string
  st_description :: string
  st_justification :: string
  st_code :: string
  st_coordinate :: point
  st_has_coordinate :: bool
  st_video_time :: rat

text \<open>\<^verbatim>\<open>coord = event.get('coordinate', {}); x, y = coord.get('x', 0), coord.get('y', 0)\<close>\<close>

definition coord_xy :: "raw_event \<Rightarrow> int \<times> int" where
  "coord_xy event =
     (case ev_coordinate event of
        None \<Rightarrow> (0, 0)
      | Some coord \<Rightarrow> (case pt_x coord of None \<Rightarrow> 0 | Some x \<Rightarrow> x,
                       case pt_y coord of None \<Rightarrow> 0 | Some y \<Rightarrow> y))"

definition build_pyautogui_code :: "string \<Rightarrow> raw_event \<Rightarrow> string \<Rightarrow> string" where
  "build_pyautogui_code action event description =
     (let x = fst (coord_xy event); y = snd (coord_xy event);
          desc_lower = lower description
      in if action = ''click'' then
           (if sublist ''double'' desc_lower then
              ''pyautogui.doubleClick('' @ str_int x @ '', '' @ str_int y @ '')''
            else if sublist ''right'' desc_lower then
              ''pyautogui.rightClick('' @ str_int x @ '', '' @ str_int y @ '')''
            else if sublist ''triple'' desc_lower then
              ''pyautogui.click('' @ str_int x @ '', '' @ str_int y @ '', clicks=3)''
            else ''pyautogui.click('' @ str_int x @ '', '' @ str_int y @ '')'')
         else if action = ''drag'' then
           (case re_search drag_from_to description of
              Some ((g1, g2), (g3, g4)) \<Rightarrow>
                ''pyautogui.moveTo('' @ g1 @ '', '' @ g2 @ ''); pyautogui.dragTo(''
                  @ g3 @ '', '' @ g4 @ '')''
            | None \<Rightarrow> ''pyautogui.drag('' @ str_int x @ '', '' @ str_int y @ '')'')
         else if action = ''scroll'' then
           (let down = re_search (marker_count down_marker) description;
                up = re_search (marker_count up_marker) description;
                total = (0::int)
                  - (case down of None \<Rightarrow> 0 | Some g \<Rightarrow> int (int_of_digits g))
                  + (case up of None \<Rightarrow> 0 | Some g \<Rightarrow> int (int_of_digits g))
            in ''pyautogui.scroll('' @ str_int total @ '')'')
         else if action = ''type'' then
           (case re_search (keyboard_text '' Type: '') description of
              Some g \<Rightarrow>
                ''pyautogui.write('' @ [CHR 0x27]
                  @ (if length g > 30 then take 30 g @ ''...'' else g) @ [CHR 0x27] @ '')''
            | None \<Rightarrow> ''pyautogui.write('' @ [CHR 0x27] @ ''...'' @ [CHR 0x27] @ '')'')
         else if action = ''press'' then
           (case re_search (keyboard_text '' Press: '') description of
              Some g \<Rightarrow> ''pyautogui.hotkey('' @ g @ '')''
            | None \<Rightarrow> ''pyautogui.press('' @ [CHR 0x27] @ ''...'' @ [CHR 0x27] @ '')'')
         else ''# '' @ action)"

text \<open>
  \<^verbatim>\<open>pre_move and pre_move.get(field)\<close> as a condition: the timestamp when it is truthy, that
  is present and not zero.
\<close>

definition get_truthy :: "pre_move option \<Rightarrow> (pre_move \<Rightarrow> rat option) \<Rightarrow> rat option" where
  "get_truthy pre_move field =
     (case pre_move of
        None \<Rightarrow> None
      | Some pm \<Rightarrow> (case field pm of
                      None \<Rightarrow> None
                    | Some t \<Rightarrow> if t = 0 then None else Some t))"

text \<open>The \<^verbatim>\<open>capture_time\<close> of the loop body of \<^verbatim>\<open>load_task_data\<close>.\<close>

definition capture_time :: "raw_event \<Rightarrow> rat" where
  "capture_time ce =
     (let start_time = (case ev_start_time ce of None \<Rightarrow> 0 | Some t \<Rightarrow> t);
          pre_move = ev_pre_move ce
      in case get_truthy pre_move pm_start_time of
           Some pm_start \<Rightarrow>
             (case get_truthy pre_move pm_end_time of
                Some pm_end \<Rightarrow> pm_start + (pm_end - pm_start) * 0.8
              | None \<Rightarrow> max 0 (start_time - 0.1))
         | None \<Rightarrow>
             (case get_truthy pre_move pm_end_time of
                Some pm_end \<Rightarrow> max 0 (pm_end - 0.3)
              | None \<Rightarrow> max 0 (start_time - 0.1)))"

text \<open>
  \<^verbatim>\<open>description = ve.get('description', ce.get('description', ''))\<close>, where \<open>ve\<close> is the
  visible event at the index, or \<^verbatim>\<open>{}\<close> beyond the end of the visible log.
\<close>

definition step_description :: "vis_event \<Rightarrow> raw_event \<Rightarrow> string" where
  "step_description ve ce =
     (case ve_description ve of
        Some d \<Rightarrow> d
      | None \<Rightarrow> (case ev_description ce of Some d \<Rightarrow> d | None \<Rightarrow> []))"

text \<open>One iteration of the loop \<^verbatim>\<open>for i, ce in enumerate(complete_events)\<close>.\<close>

definition build_step :: "vis_event list \<Rightarrow> rat \<Rightarrow> nat \<Rightarrow> raw_event \<Rightarrow> step" where
  "build_step vis_events video_start_ts i ce =
     (let ve = (if i < length vis_events then vis_events ! i else \<lparr>ve_description = None\<rparr>);
          x = fst (coord_xy ce); y = snd (coord_xy ce);
          video_time = capture_time ce - video_start_ts;
          action = (case ev_action ce of None \<Rightarrow> [] | Some a \<Rightarrow> a);
          description = step_description ve ce;
          code = build_pyautogui_code action ce description;
          has_coordinate = ((action = ''click'' \<or> action = ''drag'') \<and> (x \<noteq> 0 \<or> y \<noteq> 0))
      in \<lparr>st_index = i, st_action = action, st_description = description,
          st_justification = (case ev_justification ce of None \<Rightarrow> [] | Some j \<Rightarrow> j),
          st_code = code, st_coordinate = \<lparr>pt_x = Some x, pt_y = Some y\<rparr>,
          st_has_coordinate = has_coordinate, st_video_time = video_time\<rparr>)"

subsection \<open>The task directory and \<^verbatim>\<open>load_task_data\<close>\<close>

text \<open>
  What \<^verbatim>\<open>load_task_data\<close> reads of \<^verbatim>\<open>DATA_DIR / task_id\<close>: the start timestamp of
  \<^verbatim>\<open>metadata.json\<close> (\<open>None\<close> when the file or the key is missing), the paths that
  \<^verbatim>\<open>glob('*.mp4')\<close> yields, the frame width and height that the video decoder reports for
  the chosen video, and the two event logs (\<open>None\<close> when the file does not exist). The
  data directory maps a task id to its directory, \<open>None\<close> when there is none.
\<close>

record task_dir =
  td_video_start_timestamp :: "rat option"
  td_mp4 :: "string list"
  td_frame_size :: "int \<times> int"
  td_vis_events :: "vis_event list option"
  td_complete_events :: "raw_event list option"

type_synonym data_dir = "string \<Rightarrow> task_dir option"

record task_data =
  tk_task_id :: string
  tk_video_file :: "string option"
  tk_video_start_ts :: rat
  tk_video_width :: int
  tk_video_height :: int
  tk_steps :: "step list"

text \<open>The first \<^verbatim>\<open>*.mp4\<close> whose path does not contain \<^verbatim>\<open>video_clips\<close>.\<close>

definition find_video :: "string list \<Rightarrow> string option" where
  "find_video paths = find (\<lambda>f. \<not> sublist ''video_clips'' f) paths"

text \<open>\<^verbatim>\<open>f.name\<close>: the last component of a path.\<close>

definition path_name :: "string \<Rightarrow> string" where
  "path_name f = rev (takeWhile (\<lambda>c. c \<noteq> CHR ''/'') (rev f))"

definition load_task_data :: "data_dir \<Rightarrow> string \<Rightarrow> task_data option" where
  "load_task_data data task_id =
     (case data task_id of
        None \<Rightarrow> None
      | Some task_dir \<Rightarrow>
          (let video_start_ts =
                 (case td_video_start_timestamp task_dir of None \<Rightarrow> 0 | Some t \<Rightarrow> t);
               video_path = find_video (td_mp4 task_dir);
               video_width =
                 (case video_path of
                    None \<Rightarrow> 1920
                  | Some f \<Rightarrow> if fst (td_frame_size task_dir) = 0 then 1920
                              else fst (td_frame_size task_dir));
               video_height =
                 (case video_path of
                    None \<Rightarrow> 1080
                  | Some f \<Rightarrow> if snd (td_frame_size task_dir) = 0 then 1080
                              else snd (td_frame_size task_dir))
           in case td_complete_events task_dir of
                None \<Rightarrow> None
              | Some complete_events \<Rightarrow>
                  (let vis_events =
                         (case td_vis_events task_dir of None \<Rightarrow> [] | Some vs \<Rightarrow> vs)
                   in Some \<lparr>tk_task_id = task_id,
                            tk_video_file = map_option path_name video_path,
                            tk_video_start_ts = video_start_ts,
                            tk_video_width = video_width,
                            tk_video_height = video_height,
                            tk_steps = map (\<lambda>(i, ce). build_step vis_events video_start_ts i ce)
                                         (enumerate 0 complete_events)\<rparr>)))"

subsection \<open>Applying a coordinate adjustment to a step's code\<close>

text \<open>
  The chain of tests that \<^verbatim>\<open>api_task\<close> and \<^verbatim>\<open>api_export\<close> both run on the code of a step
  that has an entry in the overlay; \<open>x\<close> and \<open>y\<close> are the entry's current coordinates. The
  result is the code afterwards (unchanged when no test applies).
\<close>

definition adjust_code :: "string \<Rightarrow> int option \<Rightarrow> int option \<Rightarrow> string" where
  "adjust_code code x y =
     (if sublist ''doubleClick'' code then
        ''pyautogui.doubleClick('' @ fmt x @ '', '' @ fmt y @ '')''
      else if sublist ''rightClick'' code then
        ''pyautogui.rightClick('' @ fmt x @ '', '' @ fmt y @ '')''
      else if sublist ''clicks=3'' code then
        ''pyautogui.click('' @ fmt x @ '', '' @ fmt y @ '', clicks=3)''
      else if sublist ''click'' (lower code) \<and> sublist ''pyautogui.click'' code then
        ''pyautogui.click('' @ fmt x @ '', '' @ fmt y @ '')''
      else if sublist ''moveTo'' code \<and> sublist ''dragTo'' code then
        (case re_search drag_to code of
           Some (g1, g2) \<Rightarrow>
             ''pyautogui.moveTo('' @ fmt x @ '', '' @ fmt y @ ''); pyautogui.dragTo(''
               @ g1 @ '', '' @ g2 @ '')''
         | None \<Rightarrow> code)
      else code)"

text \<open>\<^verbatim>\<open>api_task\<close>: the loop body over the steps, then the handler.\<close>

definition adjust_step :: "coord_store \<Rightarrow> string \<Rightarrow> step \<Rightarrow> step" where
  "adjust_step coord_adjustments task_id step =
     (case map_of coord_adjustments (adj_key task_id (int (st_index step))) of
        None \<Rightarrow> step
      | Some adj \<Rightarrow>
          step\<lparr>st_coordinate := \<lparr>pt_x = adj_x adj, pt_y = adj_y adj\<rparr>,
               st_code := adjust_code (st_code step) (adj_x adj) (adj_y adj)\<rparr>)"

definition api_task :: "data_dir \<Rightarrow> coord_store option \<Rightarrow> string \<Rightarrow> (nat \<times> string) + task_data" where
  "api_task data coord_file task_id =
     (case load_task_data data task_id of
        None \<Rightarrow> Inl (404, ''Task not found'')
      | Some d \<Rightarrow>
          (case coord_file of
             None \<Rightarrow> Inr d
           | Some coord_adjustments \<Rightarrow>
               Inr (d\<lparr>tk_steps := map (adjust_step coord_adjustments task_id) (tk_steps d)\<rparr>)))"


subsection \<open>Annotation store (\<^verbatim>\<open>annotations.json\<close>)\<close>

text \<open>
  \<open>ann_mark\<close> is \<open>Some ''pass''\<close>, \<open>Some ''fail''\<close> or \<open>None\<close> (JSON \<^verbatim>\<open>null\<close>). In the
  request, \<open>ar_mark = None\<close> is a missing or null mark; \<open>ar_pass_reason\<close> and \<open>ar_scores\<close>
  are \<open>None\<close> when the key is missing, and the handler then takes \<^verbatim>\<open>''\<close> and \<^verbatim>\<open>{}\<close>.
\<close>

record annotation =
  ann_mark :: "string option"
  ann_pass_reason :: string
  ann_scores :: "(string \<times> int) list"

type_synonym annotations = "(string \<times> annotation) list"

record annotate_request =
  ar_task_id :: string
  ar_mark :: "string option"
  ar_pass_reason :: "string option"
  ar_scores :: "(string \<times> int) list option"

definition api_annotate :: "annotations \<Rightarrow> annotate_request \<Rightarrow> annotations" where
  "api_annotate annotations r =
     AList.update (ar_task_id r)
       \<lparr>ann_mark = ar_mark r,
        ann_pass_reason = (case ar_pass_reason r of None \<Rightarrow> [] | Some p \<Rightarrow> p),
        ann_scores = (case ar_scores r of None \<Rightarrow> [] | Some sc \<Rightarrow> sc)\<rparr>
       annotations"

subsection \<open>Export (\<^verbatim>\<open>api_export\<close>)\<close>

text \<open>A row of the task CSV, as \<^verbatim>\<open>load_tasks\<close> keeps it.\<close>

record task_info =
  ti_task_id :: string
  ti_instruction :: string
  ti_worker_id :: string
  ti_worker_name :: string

text \<open>\<^verbatim>\<open>int(task_id) if task_id.isdigit() else task_id\<close>\<close>

datatype task_ident = TaskInt nat | TaskStr string

record traj_entry =
  tr_index :: nat
  tr_code :: string
  tr_screenshot :: string
  tr_justification :: string

record rubric =
  sc_correctness :: int
  sc_difficulty :: int
  sc_knowledge_richness :: int
  sc_task_value :: int

record cua_data =
  cd_task_id :: task_ident
  cd_instruction :: string
  cd_pass_reason :: string
  cd_scores :: rubric
  cd_traj :: "traj_entry list"

text \<open>
  The files under \<^verbatim>\<open>OUTPUT_DIR\<close>, by their path relative to it. The export never deletes
  a file there: it creates directories with \<^verbatim>\<open>exist_ok\<close>, writes files, and packs every file
  that \<^verbatim>\<open>os.walk(OUTPUT_DIR)\<close> finds, so the directory's content before the run is part of
  the state. \<open>OtherFile\<close> is any file that the export does not write.
\<close>

datatype out_file =
    CoordJson coord_store
  | TaskJson cua_data
  | AllTasksJson "cua_data list"
  | Png
  | ZipArchive
  | OtherFile

type_synonym out_dir = "string \<rightharpoonup> out_file"

text \<open>\<^verbatim>\<open>task_output_dir / f'task_{task_id}.json'\<close>, relative to \<^verbatim>\<open>OUTPUT_DIR\<close>.\<close>

definition task_json_path :: "string \<Rightarrow> string" where
  "task_json_path task_id = ''task_'' @ task_id @ ''/task_'' @ task_id @ ''.json''"

definition write_file :: "out_dir \<Rightarrow> string \<times> out_file \<Rightarrow> out_dir" where
  "write_file dir pf = dir(fst pf \<mapsto> snd pf)"

text \<open>
  What one export run writes and returns. \<open>ex_task_files\<close> are the per-task JSON files
  written, each as the task id \<open>t\<close> of its path \<^verbatim>\<open>task_t/task_t.json\<close> and its content;
  \<open>ex_screenshots\<close> are the PNG files written; \<open>ex_all_tasks\<close> is the content of
  \<^verbatim>\<open>all_tasks.json\<close>; \<open>ex_message\<close> and \<open>ex_count\<close> are fields of the JSON response;
  \<open>ex_output_dir\<close> is the content of \<^verbatim>\<open>OUTPUT_DIR\<close> after the run and \<open>ex_archive\<close> are the
  members of \<^verbatim>\<open>export.zip\<close>, by their archive name.
\<close>

record export_result =
  ex_task_files :: "(string \<times> cua_data) list"
  ex_screenshots :: "string list"
  ex_all_tasks :: "cua_data list"
  ex_message :: string
  ex_count :: nat
  ex_output_dir :: out_dir
  ex_archive :: out_dir

text \<open>\<^verbatim>\<open>passed_tasks = [tid for tid, ann in annotations.items() if ann.get('mark') == 'pass']\<close>\<close>

definition passed_tasks :: "annotations \<Rightarrow> string list" where
  "passed_tasks annotations =
     map fst (filter (\<lambda>(tid, ann). ann_mark ann = Some ''pass'') annotations)"

text \<open>
  The body of the loop over a task's steps. The frame source is the function \<open>grab\<close>: for
  a video path and a video time it tells whether \<^verbatim>\<open>cap.read()\<close> returned a frame.
\<close>

definition export_step :: "coord_store \<Rightarrow> string \<Rightarrow> step \<Rightarrow> traj_entry" where
  "export_step coord_adjustments task_id step =
     (let screenshot_name = ''step_'' @ str_nat (st_index step) @ ''.png'';
          code = (case map_of coord_adjustments (adj_key task_id (int (st_index step))) of
                    None \<Rightarrow> st_code step
                  | Some adj \<Rightarrow> adjust_code (st_code step) (adj_x adj) (adj_y adj))
      in \<lparr>tr_index = st_index step, tr_code = code,
          tr_screenshot = ''task_'' @ task_id @ ''/'' @ screenshot_name,
          tr_justification = st_justification step\<rparr>)"

definition score_of :: "annotation option \<Rightarrow> string \<Rightarrow> int" where
  "score_of ann dimension =
     (case ann of
        None \<Rightarrow> 0
      | Some a \<Rightarrow> (case map_of (ann_scores a) dimension of None \<Rightarrow> 0 | Some v \<Rightarrow> v))"

text \<open>
  One iteration of the loop over \<open>passed_tasks\<close>: \<open>None\<close> when the task is skipped by a
  \<^verbatim>\<open>continue\<close>, otherwise the screenshots written and the task's record.
\<close>

definition export_task ::
  "data_dir \<Rightarrow> (string \<times> task_info) list \<Rightarrow> annotations \<Rightarrow> coord_store
     \<Rightarrow> (string \<Rightarrow> rat \<Rightarrow> bool) \<Rightarrow> string \<Rightarrow> (string list \<times> cua_data) option" where
  "export_task data tasks annotations coord_adjustments grab task_id =
     (let task_info = map_of tasks task_id;
          ann = map_of annotations task_id
      in case load_task_data data task_id of
           None \<Rightarrow> None
         | Some task_data \<Rightarrow>
             (case (case data task_id of None \<Rightarrow> None | Some d \<Rightarrow> find_video (td_mp4 d)) of
                None \<Rightarrow> None
              | Some video_file \<Rightarrow>
                  Some (map (\<lambda>st. ''task_'' @ task_id @ ''/step_'' @ str_nat (st_index st) @ ''.png'')
                          (filter (\<lambda>st. grab video_file (st_video_time st)) (tk_steps task_data)),
                        \<lparr>cd_task_id = (if isdigit task_id then TaskInt (int_of_digits task_id)
                                        else TaskStr task_id),
                         cd_instruction =
                           (case task_info of None \<Rightarrow> [] | Some ti \<Rightarrow> ti_instruction ti),
                         cd_pass_reason = (case ann of None \<Rightarrow> [] | Some a \<Rightarrow> ann_pass_reason a),
                         cd_scores =
                           \<lparr>sc_correctness = score_of ann ''correctness'',
                            sc_difficulty = score_of ann ''difficulty'',
                            sc_knowledge_richness = score_of ann ''knowledge_richness'',
                            sc_task_value = score_of ann ''task_value''\<rparr>,
                         cd_traj = map (export_step coord_adjustments task_id)
                                     (tk_steps task_data)\<rparr>)))"

text \<open>The loop over \<open>passed_tasks\<close>: the tasks exported, in order, each with its output.\<close>

fun export_loop ::
  "(string \<Rightarrow> (string list \<times> cua_data) option) \<Rightarrow> string list
     \<Rightarrow> (string \<times> string list \<times> cua_data) list" where
  "export_loop body [] = []"
| "export_loop body (task_id # rest) =
     (case body task_id of
        None \<Rightarrow> export_loop body rest
      | Some out \<Rightarrow> (task_id, out) # export_loop body rest)"

text \<open>
  The files that the loop writes, in order: for each exported task its screenshots and
  then its JSON file; after the loop the combined file.
\<close>

definition written_files :: "(string \<times> string list \<times> cua_data) list \<Rightarrow> (string \<times> out_file) list" where
  "written_files exported =
     concat (map (\<lambda>(task_id, shots, cua).
                    map (\<lambda>s. (s, Png)) shots @ [(task_json_path task_id, TaskJson cua)])
               exported)
     @ [(''all_tasks.json'', AllTasksJson (map (\<lambda>(task_id, shots, cua). cua) exported))]"

text \<open>
  The walk that fills the archive: every file of the tree but those named
  \<^verbatim>\<open>export.zip\<close>, under its path relative to \<^verbatim>\<open>OUTPUT_DIR\<close>.
\<close>

definition zip_members :: "out_dir \<Rightarrow> out_dir" where
  "zip_members tree = (\<lambda>p. if path_name p = ''export.zip'' then None else tree p)"

text \<open>
  \<^verbatim>\<open>api_export\<close>. \<open>out_dir\<close> is the content of \<^verbatim>\<open>OUTPUT_DIR\<close> before the run; the overlay file
  \<^verbatim>\<open>coordinate_adjustments.json\<close> in it is given by \<open>coord_file\<close> (\<open>None\<close> when it does not
  exist).
\<close>

definition api_export ::
  "data_dir \<Rightarrow> (string \<times> task_info) list \<Rightarrow> annotations \<Rightarrow> coord_store option
     \<Rightarrow> (string \<Rightarrow> rat \<Rightarrow> bool) \<Rightarrow> out_dir \<Rightarrow> export_result" where
  "api_export data tasks annotations coord_file grab out_dir =
     (let coord_adjustments = (case coord_file of None \<Rightarrow> [] | Some c \<Rightarrow> c);
          passed = passed_tasks annotations;
          exported = export_loop (export_task data tasks annotations coord_adjustments grab) passed;
          tree = foldl write_file
                   (out_dir(''coordinate_adjustments.json'' := map_option CoordJson coord_file))
                   (written_files exported)
      in \<lparr>ex_task_files = map (\<lambda>(task_id, shots, cua). (task_id, cua)) exported,
          ex_screenshots = concat (map (\<lambda>(task_id, shots, cua). shots) exported),
          ex_all_tasks = map (\<lambda>(task_id, shots, cua). cua) exported,
          ex_message = ''Exported '' @ str_nat (length passed) @ '' passed cases'',
          ex_count = length passed,
          ex_output_dir = tree(''export.zip'' \<mapsto> ZipArchive),
          ex_archive = zip_members tree\<rparr>)"

subsection \<open>Auxiliary predicates of the proofs\<close>

text \<open>A non-empty string of decimal digits: what a \<^verbatim>\<open>(\d+)\<close> group holds.\<close>

definition digit_group :: "string \<Rightarrow> bool" where
  "digit_group g = (g \<noteq> [] \<and> list_all is_digit g)"

text \<open>The characters of a rendered integer.\<close>

definition is_num_char :: "char \<Rightarrow> bool" where
  "is_num_char c = (is_digit c \<or> c = CHR ''-'')"

section \<open>Properties\<close>

subsection \<open>The coordinate adjustment store\<close>

lemma update_coordinate_lookup:
  "map_of (api_update_coordinate s r) (rq_key r) =
     Some \<lparr>adj_task_id = rq_task_id r, adj_step_index = rq_step_index r,
           adj_x = rq_x r, adj_y = rq_y r, adj_original = Some (kept_original s r)\<rparr>"
  by (simp add: api_update_coordinate_def kept_original_def Let_def update_conv')

lemma update_coordinate_other:
  "k \<noteq> rq_key r \<Longrightarrow> map_of (api_update_coordinate s r) k = map_of s k"
  by (simp add: api_update_coordinate_def Let_def update_conv')

lemma kept_original_after:
  "rq_key r' = rq_key r \<Longrightarrow> kept_original (api_update_coordinate s r) r' = kept_original s r"
  by (simp add: kept_original_def[of "api_update_coordinate s r"] update_coordinate_lookup)

lemma update_sequence_same_key:
  "\<forall>q \<in> set rs. rq_key q = rq_key r \<Longrightarrow>
   map_of (foldl api_update_coordinate s (r # rs)) (rq_key r) =
     Some \<lparr>adj_task_id = rq_task_id (last (r # rs)), adj_step_index = rq_step_index (last (r # rs)),
           adj_x = rq_x (last (r # rs)), adj_y = rq_y (last (r # rs)),
           adj_original = Some (kept_original s r)\<rparr>"
proof (induction rs arbitrary: s r)
  case Nil
  show ?case by (simp add: update_coordinate_lookup)
next
  case (Cons q rs)
  from Cons.prems have kq: "rq_key q = rq_key r" and rest: "\<forall>p \<in> set rs. rq_key p = rq_key q"
    by simp_all
  have "map_of (foldl api_update_coordinate (api_update_coordinate s r) (q # rs)) (rq_key q) =
     Some \<lparr>adj_task_id = rq_task_id (last (q # rs)), adj_step_index = rq_step_index (last (q # rs)),
           adj_x = rq_x (last (q # rs)), adj_y = rq_y (last (q # rs)),
           adj_original = Some (kept_original (api_update_coordinate s r) q)\<rparr>"
    by (rule Cons.IH [OF rest])
  then show ?case
    by (simp add: kq kept_original_after)
qed

text \<open>
  C1 (original write-once). Take any store \<open>s\<close> and any non-empty sequence of
  \<^verbatim>\<open>update_coordinate\<close> calls \<open>r # rs\<close> that all address the same key. Afterwards the entry
  under that key has the current coordinates of the last call, and its original is: the
  original that \<open>s\<close> already stored under the key, if there was one; otherwise the original
  supplied by the first call \<open>r\<close>. The originals supplied by the later calls \<open>rs\<close> are
  ignored.
\<close>

theorem original_write_once:
  assumes "\<forall>q \<in> set rs. rq_key q = rq_key r"
  shows "\<exists>e. map_of (foldl api_update_coordinate s (r # rs)) (rq_key r) = Some e
            \<and> adj_x e = rq_x (last (r # rs)) \<and> adj_y e = rq_y (last (r # rs))
            \<and> adj_original e =
                Some (case map_of s (rq_key r) of
                        None \<Rightarrow> rq_original r
                      | Some old \<Rightarrow> (case adj_original old of
                                      None \<Rightarrow> rq_original r
                                    | Some orig \<Rightarrow> orig))"
  using update_sequence_same_key [OF assms, of s]
  by (simp add: kept_original_def split: option.splits)

text \<open>
  Three calls on the fresh key \<^verbatim>\<open>7_2\<close> of an empty store, each supplying another
  original: the stored original is the one of the first call.
\<close>

theorem original_write_once_witness:
  "rq_key \<lparr>rq_task_id = ''7'', rq_step_index = 2, rq_x = Some 30, rq_y = Some 40,
            rq_original_x = Some 3, rq_original_y = Some 4\<rparr>
     = rq_key \<lparr>rq_task_id = ''7'', rq_step_index = 2, rq_x = Some 10, rq_y = Some 20,
            rq_original_x = Some 100, rq_original_y = Some 200\<rparr>
   \<and> rq_key \<lparr>rq_task_id = ''7'', rq_step_index = 2, rq_x = Some 50, rq_y = Some 60,
            rq_original_x = Some 5, rq_original_y = Some 6\<rparr>
     = rq_key \<lparr>rq_task_id = ''7'', rq_step_index = 2, rq_x = Some 10, rq_y = Some 20,
            rq_original_x = Some 100, rq_original_y = Some 200\<rparr>
   \<and> (\<exists>e. map_of (foldl api_update_coordinate []
          [\<lparr>rq_task_id = ''7'', rq_step_index = 2, rq_x = Some 10, rq_y = Some 20,
            rq_original_x = Some 100, rq_original_y = Some 200\<rparr>,
           \<lparr>rq_task_id = ''7'', rq_step_index = 2, rq_x = Some 30, rq_y = Some 40,
            rq_original_x = Some 3, rq_original_y = Some 4\<rparr>,
           \<lparr>rq_task_id = ''7'', rq_step_index = 2, rq_x = Some 50, rq_y = Some 60,
            rq_original_x = Some 5, rq_original_y = Some 6\<rparr>]) ''7_2'' = Some e
        \<and> adj_x e = Some 50 \<and> adj_y e = Some 60
        \<and> adj_original e = Some \<lparr>pt_x = Some 100, pt_y = Some 200\<rparr>)"
  using original_write_once
    [of "[\<lparr>rq_task_id = ''7'', rq_step_index = 2, rq_x = Some 30, rq_y = Some 40,
            rq_original_x = Some 3, rq_original_y = Some 4\<rparr>,
          \<lparr>rq_task_id = ''7'', rq_step_index = 2, rq_x = Some 50, rq_y = Some 60,
            rq_original_x = Some 5, rq_original_y = Some 6\<rparr>]"
        "\<lparr>rq_task_id = ''7'', rq_step_index = 2, rq_x = Some 10, rq_y = Some 20,
            rq_original_x = Some 100, rq_original_y = Some 200\<rparr>"
        "[]"]
  by (simp add: rq_key_def adj_key_def str_int_def str_nat.simps rq_original_def)

subsection \<open>The normalizer: capture time\<close>

lemma get_truthy_Some:
  "get_truthy pre_move field = Some t \<longleftrightarrow>
     (\<exists>pm. pre_move = Some pm \<and> field pm = Some t \<and> t \<noteq> 0)"
  by (auto simp: get_truthy_def split: option.splits)

lemma get_truthy_None:
  "get_truthy pre_move field = None \<longleftrightarrow>
     (pre_move = None \<or> (\<exists>pm. pre_move = Some pm \<and> (field pm = None \<or> field pm = Some 0)))"
  by (auto simp: get_truthy_def split: option.splits)

text \<open>
  C2 (capture-time priority), as the code has it. The tests on the \<^verbatim>\<open>pre_move\<close> timestamps
  are truthiness tests, so a timestamp counts as set only when it is present and not
  zero. With both \<^verbatim>\<open>pre_move\<close> timestamps set in that sense, the capture time is
  \<open>pm_start + 0.8 * (pm_end - pm_start)\<close>; otherwise, with the \<^verbatim>\<open>pre_move\<close> end time set,
  it is \<open>max 0 (pm_end - 0.3)\<close>; otherwise it is \<open>max 0 (start_time - 0.1)\<close>, where a
  missing \<open>start_time\<close> is \<open>0\<close>.
\<close>

theorem capture_time_priority:
  "(ev_pre_move ce = Some pm \<and> pm_start_time pm = Some a \<and> pm_end_time pm = Some b
      \<and> a \<noteq> 0 \<and> b \<noteq> 0 \<longrightarrow> capture_time ce = a + 0.8 * (b - a))
   \<and> (ev_pre_move ce = Some pm \<and> (pm_start_time pm = None \<or> pm_start_time pm = Some 0)
      \<and> pm_end_time pm = Some b \<and> b \<noteq> 0 \<longrightarrow> capture_time ce = max 0 (b - 0.3))
   \<and> (ev_pre_move ce = None
        \<or> (ev_pre_move ce = Some pm \<and> (pm_end_time pm = None \<or> pm_end_time pm = Some 0))
      \<longrightarrow> capture_time ce = max 0 ((case ev_start_time ce of None \<Rightarrow> 0 | Some t \<Rightarrow> t) - 0.1))"
  by (auto simp: capture_time_def get_truthy_def split: option.splits)

text \<open>
  The three rules at the inputs of the specification's examples: the full window
  \<open>10 .. 12\<close> with start time \<open>9\<close> gives \<open>11.6\<close>, the end time \<open>12\<close> alone gives \<open>11.7\<close>, and
  no \<^verbatim>\<open>pre_move\<close> gives \<open>8.9\<close>.
\<close>

theorem capture_time_priority_witness:
  "capture_time \<lparr>ev_action = Some ''click'', ev_coordinate = None, ev_start_time = Some 9,
       ev_pre_move = Some \<lparr>pm_start_time = Some 10, pm_end_time = Some 12\<rparr>,
       ev_description = None, ev_justification = None\<rparr> = 11.6
   \<and> capture_time \<lparr>ev_action = Some ''click'', ev_coordinate = None, ev_start_time = Some 9,
       ev_pre_move = Some \<lparr>pm_start_time = None, pm_end_time = Some 12\<rparr>,
       ev_description = None, ev_justification = None\<rparr> = 11.7
   \<and> capture_time \<lparr>ev_action = Some ''click'', ev_coordinate = None, ev_start_time = Some 9,
       ev_pre_move = None, ev_description = None, ev_justification = None\<rparr> = 8.9"
  using capture_time_priority
      [of "\<lparr>ev_action = Some ''click'', ev_coordinate = None, ev_start_time = Some 9,
            ev_pre_move = Some \<lparr>pm_start_time = Some 10, pm_end_time = Some 12\<rparr>,
            ev_description = None, ev_justification = None\<rparr>"
          "\<lparr>pm_start_time = Some 10, pm_end_time = Some 12\<rparr>" 10 12]
    capture_time_priority
      [of "\<lparr>ev_action = Some ''click'', ev_coordinate = None, ev_start_time = Some 9,
            ev_pre_move = Some \<lparr>pm_start_time = None, pm_end_time = Some 12\<rparr>,
            ev_description = None, ev_justification = None\<rparr>"
          "\<lparr>pm_start_time = None, pm_end_time = Some 12\<rparr>" 1 12]
    capture_time_priority
      [of "\<lparr>ev_action = Some ''click'', ev_coordinate = None, ev_start_time = Some 9,
            ev_pre_move = None, ev_description = None, ev_justification = None\<rparr>"
          "\<lparr>pm_start_time = None, pm_end_time = None\<rparr>" 1 1]
  by simp

text \<open>
  A \<^verbatim>\<open>pre_move\<close> whose start time is the number \<open>0\<close> and whose end time is \<open>12\<close> has both
  timestamps, yet the capture time is \<open>max 0 (12 - 0.3) = 11.7\<close> and not
  \<open>0 + 0.8 * (12 - 0) = 9.6\<close>: the zero start time fails the truthiness test.
\<close>

theorem capture_time_priority_counterexample:
  "capture_time \<lparr>ev_action = Some ''click'', ev_coordinate = None, ev_start_time = Some 9,
       ev_pre_move = Some \<lparr>pm_start_time = Some 0, pm_end_time = Some 12\<rparr>,
       ev_description = None, ev_justification = None\<rparr> = 11.7
   \<and> (0::rat) + 0.8 * (12 - 0) \<noteq> 11.7"
  by (simp add: capture_time_def get_truthy_def)

lemma capture_time_nonneg:
  assumes "\<And>pm a b. ev_pre_move ce = Some pm \<Longrightarrow> pm_start_time pm = Some a
             \<Longrightarrow> pm_end_time pm = Some b \<Longrightarrow> 0 \<le> a \<and> 0 \<le> b"
  shows "0 \<le> capture_time ce"
proof (cases "get_truthy (ev_pre_move ce) pm_start_time")
  case None
  then show ?thesis
    by (simp add: capture_time_def split: option.splits)
next
  case (Some a)
  note sa = this
  show ?thesis
  proof (cases "get_truthy (ev_pre_move ce) pm_end_time")
    case None
    with sa show ?thesis by (simp add: capture_time_def)
  next
    case (Some b)
    from sa Some obtain pm where "ev_pre_move ce = Some pm" "pm_start_time pm = Some a"
       "pm_end_time pm = Some b"
      by (auto simp: get_truthy_Some)
    then have "0 \<le> a" "0 \<le> b" using assms by blast+
    then have "0 \<le> a * 0.2 + b * 0.8" by simp
    moreover have "a + (b - a) * 0.8 = a * 0.2 + b * 0.8" by (simp add: field_simps)
    ultimately show ?thesis using sa Some by (simp add: capture_time_def)
  qed
qed

text \<open>
  C3 (lower bound of the video time), as the code has it. Only the second and the third
  rule clamp the capture time at \<open>0\<close>; the full-window rule does not, and its value is
  \<open>0.2 * pm_start + 0.8 * pm_end\<close>. So for every event whose \<^verbatim>\<open>pre_move\<close> timestamps, when
  both are present, are not negative, the capture time is at least \<open>0\<close> and the video
  time is at least minus the recording start offset.
\<close>

theorem video_time_lower_bound:
  assumes "\<And>pm a b. ev_pre_move ce = Some pm \<Longrightarrow> pm_start_time pm = Some a
             \<Longrightarrow> pm_end_time pm = Some b \<Longrightarrow> 0 \<le> a \<and> 0 \<le> b"
  shows "0 \<le> capture_time ce
         \<and> - video_start_ts \<le> st_video_time (build_step vis_events video_start_ts i ce)"
  using capture_time_nonneg [OF assms] by (simp add: build_step_def Let_def)

text \<open>An event with the window \<open>10 .. 12\<close> and the recording start offset \<open>5\<close>.\<close>

theorem video_time_lower_bound_witness:
  "0 \<le> capture_time \<lparr>ev_action = Some ''click'', ev_coordinate = None, ev_start_time = Some 9,
       ev_pre_move = Some \<lparr>pm_start_time = Some 10, pm_end_time = Some 12\<rparr>,
       ev_description = None, ev_justification = None\<rparr>
   \<and> - 5 \<le> st_video_time (build_step [] 5 0
       \<lparr>ev_action = Some ''click'', ev_coordinate = None, ev_start_time = Some 9,
        ev_pre_move = Some \<lparr>pm_start_time = Some 10, pm_end_time = Some 12\<rparr>,
        ev_description = None, ev_justification = None\<rparr>)"
proof -
  let ?ce = "\<lparr>ev_action = Some ''click'', ev_coordinate = None, ev_start_time = Some 9,
            ev_pre_move = Some \<lparr>pm_start_time = Some 10, pm_end_time = Some 12\<rparr>,
            ev_description = None, ev_justification = None\<rparr>"
  have h: "0 \<le> a \<and> 0 \<le> b"
    if "ev_pre_move ?ce = Some pm" "pm_start_time pm = Some a" "pm_end_time pm = Some b"
    for pm a b
    using that by auto
  show ?thesis
    using video_time_lower_bound [of ?ce 5 "[]" 0, OF h] by simp
qed

text \<open>
  With the window \<open>-5 .. -4\<close> the full-window rule gives the capture time \<open>-4.2\<close>, which is
  not clamped: at the recording start offset \<open>0\<close> the video time is below \<open>-0\<close>.
\<close>

theorem video_time_lower_bound_counterexample:
  "capture_time
       \<lparr>ev_action = Some ''click'', ev_coordinate = None, ev_start_time = Some 9,
        ev_pre_move = Some \<lparr>pm_start_time = Some (- 5), pm_end_time = Some (- 4)\<rparr>,
        ev_description = None, ev_justification = None\<rparr> = - 4.2
   \<and> \<not> (- 0 \<le> st_video_time (build_step [] 0 0
       \<lparr>ev_action = Some ''click'', ev_coordinate = None, ev_start_time = Some 9,
        ev_pre_move = Some \<lparr>pm_start_time = Some (- 5), pm_end_time = Some (- 4)\<rparr>,
        ev_description = None, ev_justification = None\<rparr>))"
  by (simp add: build_step_def Let_def capture_time_def get_truthy_def)

subsection \<open>The normalizer: descriptions and missing input\<close>

lemma steps_nth:
  assumes "data task_id = Some task_dir" "td_complete_events task_dir = Some ces" "i < length ces"
  shows "\<exists>d. load_task_data data task_id = Some d \<and> length (tk_steps d) = length ces
           \<and> tk_steps d ! i =
               build_step (case td_vis_events task_dir of None \<Rightarrow> [] | Some vs \<Rightarrow> vs)
                 (case td_video_start_timestamp task_dir of None \<Rightarrow> 0 | Some t \<Rightarrow> t) i (ces ! i)"
  using assms by (simp add: load_task_data_def Let_def nth_enumerate_eq)

lemma build_step_description:
  "st_description (build_step vis ts i ce) =
     step_description (if i < length vis then vis ! i else \<lparr>ve_description = None\<rparr>) ce"
  by (simp add: build_step_def Let_def)

text \<open>
  C4 (description of a step), as the code has it. For every index \<open>i\<close> of the complete
  log, the description of step \<open>i\<close> is the description of the visible event \<open>i\<close> whenever
  that event exists and has a description field, the empty string included; otherwise it
  is the description of the complete event \<open>i\<close>, or the empty string when that has none.
\<close>

theorem description_selection:
  assumes "data task_id = Some task_dir" "td_complete_events task_dir = Some ces" "i < length ces"
  shows "\<exists>d. load_task_data data task_id = Some d \<and> length (tk_steps d) = length ces
           \<and> st_description (tk_steps d ! i) =
               (case (case td_vis_events task_dir of
                        None \<Rightarrow> None
                      | Some vs \<Rightarrow> if i < length vs then ve_description (vs ! i) else None) of
                  Some v \<Rightarrow> v
                | None \<Rightarrow> (case ev_description (ces ! i) of Some c \<Rightarrow> c | None \<Rightarrow> []))"
proof -
  from steps_nth [of data task_id, OF assms] obtain d where d: "load_task_data data task_id = Some d"
    "length (tk_steps d) = length ces"
    "tk_steps d ! i = build_step (case td_vis_events task_dir of None \<Rightarrow> [] | Some vs \<Rightarrow> vs)
                 (case td_video_start_timestamp task_dir of None \<Rightarrow> 0 | Some t \<Rightarrow> t) i (ces ! i)"
    by blast
  show ?thesis
    by (rule exI [of _ d]) (simp add: d build_step_description step_description_def split: option.splits)
qed

text \<open>
  A task with two complete events and one visible event: step \<open>0\<close> takes the visible
  description, step \<open>1\<close>, beyond the visible log, the complete one.
\<close>

theorem description_selection_witness:
  "\<exists>d. load_task_data
          (\<lambda>t. Some \<lparr>td_video_start_timestamp = None, td_mp4 = [], td_frame_size = (0, 0),
                     td_vis_events = Some [\<lparr>ve_description = Some ''Click [hidden]''\<rparr>],
                     td_complete_events = Some
                       [\<lparr>ev_action = Some ''click'', ev_coordinate = None, ev_start_time = Some 9,
                         ev_pre_move = None, ev_description = Some ''Click OK'',
                         ev_justification = None\<rparr>,
                        \<lparr>ev_action = Some ''press'', ev_coordinate = None, ev_start_time = Some 11,
                         ev_pre_move = None, ev_description = Some ''Press enter'',
                         ev_justification = None\<rparr>]\<rparr>) ''7'' = Some d
        \<and> length (tk_steps d) = 2
        \<and> st_description (tk_steps d ! 0) = ''Click [hidden]''
        \<and> st_description (tk_steps d ! 1) = ''Press enter''"
proof -
  let ?ces = "[\<lparr>ev_action = Some ''click'', ev_coordinate = None, ev_start_time = Some 9,
                         ev_pre_move = None, ev_description = Some ''Click OK'',
                         ev_justification = None\<rparr>,
                        \<lparr>ev_action = Some ''press'', ev_coordinate = None, ev_start_time = Some 11,
                         ev_pre_move = None, ev_description = Some ''Press enter'',
                         ev_justification = None\<rparr>]"
  let ?dir = "\<lparr>td_video_start_timestamp = None, td_mp4 = [], td_frame_size = (0, 0),
                     td_vis_events = Some [\<lparr>ve_description = Some ''Click [hidden]''\<rparr>],
                     td_complete_events = Some ?ces\<rparr>"
  have a: "(\<lambda>t. Some ?dir) ''7'' = Some ?dir" by simp
  have b: "td_complete_events ?dir = Some ?ces" by simp
  have c0: "0 < length ?ces" and c1: "1 < length ?ces" by simp_all
  from description_selection [of "\<lambda>t. Some ?dir" "''7''" ?dir ?ces 0, OF a b c0]
       description_selection [of "\<lambda>t. Some ?dir" "''7''" ?dir ?ces 1, OF a b c1]
  show ?thesis by auto
qed

text \<open>
  A visible event whose description is the empty string: the step's description is the
  empty string, not the complete event's \<^verbatim>\<open>Click OK\<close>.
\<close>

theorem description_selection_counterexample:
  "st_description (build_step [\<lparr>ve_description = Some []\<rparr>] 0 0
       \<lparr>ev_action = Some ''click'', ev_coordinate = None, ev_start_time = Some 9,
        ev_pre_move = None, ev_description = Some ''Click OK'', ev_justification = None\<rparr>) = []
   \<and> st_description (build_step [\<lparr>ve_description = Some []\<rparr>] 0 0
       \<lparr>ev_action = Some ''click'', ev_coordinate = None, ev_start_time = Some 9,
        ev_pre_move = None, ev_description = Some ''Click OK'', ev_justification = None\<rparr>)
       \<noteq> ''Click OK''"
  by (simp add: build_step_def Let_def step_description_def)

text \<open>
  C9 (not found). When the task's directory does not exist, or it exists without the
  complete event log, \<^verbatim>\<open>load_task_data\<close> returns \<open>None\<close>, so no step at all, and
  \<^verbatim>\<open>api_task\<close> answers 404 with \<^verbatim>\<open>Task not found\<close>.
\<close>

theorem not_found_on_missing_input:
  assumes "data task_id = None \<or> (\<exists>task_dir. data task_id = Some task_dir \<and> td_complete_events task_dir = None)"
  shows "load_task_data data task_id = None
         \<and> api_task data coord_file task_id = Inl (404, ''Task not found'')"
  using assms by (auto simp: load_task_data_def api_task_def Let_def)

text \<open>
  A data directory without the task, and one where the task has a visible log but no
  complete log.
\<close>

theorem not_found_on_missing_input_witness:
  "load_task_data (\<lambda>t. None) ''42'' = None
   \<and> api_task (\<lambda>t. None) None ''42'' = Inl (404, ''Task not found'')
   \<and> load_task_data
        (\<lambda>t. Some \<lparr>td_video_start_timestamp = None, td_mp4 = [], td_frame_size = (0, 0),
                   td_vis_events = Some [\<lparr>ve_description = Some ''Click''\<rparr>],
                   td_complete_events = None\<rparr>) ''42'' = None
   \<and> api_task
        (\<lambda>t. Some \<lparr>td_video_start_timestamp = None, td_mp4 = [], td_frame_size = (0, 0),
                   td_vis_events = Some [\<lparr>ve_description = Some ''Click''\<rparr>],
                   td_complete_events = None\<rparr>) (Some []) ''42'' = Inl (404, ''Task not found'')"
  using not_found_on_missing_input [of "\<lambda>t. None" "''42''" None]
    not_found_on_missing_input
      [of "\<lambda>t. Some \<lparr>td_video_start_timestamp = None, td_mp4 = [], td_frame_size = (0, 0),
                   td_vis_events = Some [\<lparr>ve_description = Some ''Click''\<rparr>],
                   td_complete_events = None\<rparr>" "''42''" "Some []"]
  by simp

subsection \<open>Characters of rendered numbers and substrings\<close>

lemma digit_nth_is_digit: "n < 10 \<Longrightarrow> is_digit (''0123456789'' ! n)"
  unfolding is_digit_def by (rule nth_mem) simp

lemma str_nat_digits: "list_all is_digit (str_nat n)"
proof (induction n rule: str_nat.induct)
  case (1 n)
  show ?case
  proof (cases "n < 10")
    case True
    then show ?thesis by (subst str_nat.simps) (simp add: digit_nth_is_digit)
  next
    case False
    with 1 have "list_all is_digit (str_nat (n div 10))" by simp
    moreover have "is_digit (''0123456789'' ! (n mod 10))" by (rule digit_nth_is_digit) simp
    ultimately show ?thesis using False by (subst str_nat.simps) simp
  qed
qed

lemma str_nat_nonempty: "str_nat n \<noteq> []"
  by (subst str_nat.simps) simp

lemma str_int_chars: "list_all is_num_char (str_int i)"
  using str_nat_digits [of "nat i"] str_nat_digits [of "nat (- i)"]
  by (auto simp: str_int_def is_num_char_def list_all_iff)

lemma not_sublist_char: "c \<in> set sub \<Longrightarrow> c \<notin> set s \<Longrightarrow> \<not> sublist sub s"
  using set_mono_sublist by fastforce

lemma sublist_in_prefix: "sublist sub p \<Longrightarrow> sublist sub (p @ s)"
  by (metis append.assoc sublist_def)

lemma sublist_mid: "sublist sub l \<Longrightarrow> sublist sub (ps @ l @ ss)"
  unfolding sublist_def by (metis append.assoc)

lemma num_char_notin: "\<not> is_num_char c \<Longrightarrow> list_all is_num_char s \<Longrightarrow> c \<notin> set s"
  by (auto simp: list_all_iff)

lemma lower_char_num_all: "\<forall>c \<in> set ''-0123456789''. lower_char c = c"
  by (simp add: lower_char_def)

lemma is_num_char_set: "is_num_char c \<longleftrightarrow> c \<in> set ''-0123456789''"
  by (auto simp: is_num_char_def is_digit_def)

lemma lower_num: "list_all is_num_char s \<Longrightarrow> lower s = s"
  unfolding lower_def
proof (rule map_idI)
  fix c assume "list_all is_num_char s" "c \<in> set s"
  then have "c \<in> set ''-0123456789''" by (simp add: list_all_iff is_num_char_set)
  with lower_char_num_all show "lower_char c = c" by blast
qed

lemma lower_append: "lower (a @ b) = lower a @ lower b"
  by (simp add: lower_def)

lemma digit_is_num: "list_all is_digit s \<Longrightarrow> list_all is_num_char s"
  by (simp add: list_all_iff is_num_char_def)

lemma str_int_notin: "c \<notin> set ''-0123456789'' \<Longrightarrow> c \<notin> set (str_int i)"
  using str_int_chars [of i] by (auto simp: list_all_iff is_num_char_set)

lemma digits_notin: "c \<notin> set ''0123456789'' \<Longrightarrow> list_all is_digit g \<Longrightarrow> c \<notin> set g"
  by (auto simp: list_all_iff is_digit_def)

lemma sublist_in_suffix: "sublist sub s \<Longrightarrow> sublist sub (p @ s)"
  unfolding sublist_def by (metis append.assoc)

lemma lower_str_int: "lower (str_int i) = str_int i"
  by (rule lower_num) (rule str_int_chars)

subsection \<open>The regular expressions\<close>

lemma digits1_group: "digits1 s = Some (g, r) \<Longrightarrow> digit_group g"
  by (auto simp: digits1_def Let_def digit_group_def list_all_iff split: if_splits
           dest: set_takeWhileD)

lemma pair_args_groups:
  assumes "pair_args s = Some ((g1, g2), r)"
  shows "digit_group g1 \<and> digit_group g2"
proof -
  from assms obtain s1 r1 s2 r2 where "digits1 s1 = Some (g1, r1)" "digits1 s2 = Some (g2, r2)"
    by (auto simp: pair_args_def split: option.splits)
  then show ?thesis by (blast intro: digits1_group)
qed

lemma drag_from_to_groups:
  "drag_from_to s = Some ((g1, g2), (g3, g4)) \<Longrightarrow>
     digit_group g1 \<and> digit_group g2 \<and> digit_group g3 \<and> digit_group g4"
  by (auto simp: drag_from_to_def split: option.splits dest!: pair_args_groups)

lemma re_search_Some: "re_search m s = Some g \<Longrightarrow> \<exists>t. m t = Some g"
  by (induction s) (auto split: option.splits)

lemma re_search_skip:
  assumes "\<And>c cs g. m (c # cs) = Some g \<Longrightarrow> c = k" and "k \<notin> set p"
  shows "re_search m (p @ s) = re_search m s"
  using assms(2)
proof (induction p)
  case Nil
  show ?case by simp
next
  case (Cons c p)
  then have "c \<noteq> k" by auto
  with assms(1) have "m (c # p @ s) = None"
    by (cases "m (c # p @ s)") auto
  with Cons show ?case by simp
qed

lemma drag_to_head: "drag_to (c # cs) = Some g \<Longrightarrow> c = CHR ''d''"
  by (auto simp: drag_to_def lit_def split: option.splits if_splits)

lemma digit_not_space: "is_digit c \<Longrightarrow> \<not> is_space c"
  by (auto simp: is_digit_def is_space_def)

lemma digits1_append:
  assumes "digit_group g" "\<not> is_digit c"
  shows "digits1 (g @ c # r) = Some (g, c # r)"
proof -
  from assms(1) have all: "\<And>x. x \<in> set g \<Longrightarrow> is_digit x" and ne: "g \<noteq> []"
    by (auto simp: digit_group_def list_all_iff)
  have "takeWhile is_digit (g @ c # r) = g" "dropWhile is_digit (g @ c # r) = c # r"
    using all assms(2) by (simp_all add: takeWhile_append2 dropWhile_append2)
  with ne show ?thesis by (simp add: digits1_def)
qed

lemma spaces_group: "digit_group g \<Longrightarrow> spaces (CHR '' '' # g @ r) = g @ r"
  by (cases g) (auto simp: spaces_def digit_group_def is_space_def[of "CHR '' ''"] dest: digit_not_space)

lemma pair_args_digits:
  assumes "digit_group g1" "digit_group g2"
  shows "pair_args (''('' @ g1 @ '', '' @ g2 @ '')'' @ r) = Some ((g1, g2), r)"
proof -
  have 1: "digits1 (g1 @ CHR '','' # CHR '' '' # g2 @ CHR '')'' # r) = Some (g1, CHR '','' # CHR '' '' # g2 @ CHR '')'' # r)"
    by (rule digits1_append [OF assms(1)]) (simp add: is_digit_def)
  have 2: "spaces (CHR '' '' # g2 @ CHR '')'' # r) = g2 @ CHR '')'' # r"
    by (rule spaces_group [OF assms(2)])
  have 3: "digits1 (g2 @ CHR '')'' # r) = Some (g2, CHR '')'' # r)"
    by (rule digits1_append [OF assms(2)]) (simp add: is_digit_def)
  show ?thesis
    by (simp add: pair_args_def lit_def 1 2 3)
qed

lemma drag_to_match:
  assumes "digit_group g1" "digit_group g2"
  shows "drag_to (''dragTo('' @ g1 @ '', '' @ g2 @ '')'') = Some (g1, g2)"
  using pair_args_digits [OF assms, of "[]"] by (simp add: drag_to_def lit_def)

lemma group_notin: "c \<notin> set ''0123456789'' \<Longrightarrow> digit_group g \<Longrightarrow> c \<notin> set g"
  by (auto simp: digit_group_def list_all_iff is_digit_def)

subsection \<open>Adjusting the code of a step\<close>

lemma adjust_doubleClick:
  "adjust_code (''pyautogui.doubleClick('' @ str_int a @ '', '' @ str_int b @ '')'') x y =
     ''pyautogui.doubleClick('' @ fmt x @ '', '' @ fmt y @ '')''"
proof -
  have "sublist ''doubleClick'' ''pyautogui.doubleClick(''"
    by (simp add: sublist_Cons_right)
  then have "sublist ''doubleClick'' (''pyautogui.doubleClick('' @ str_int a @ '', '' @ str_int b @ '')'')"
    by (rule sublist_in_prefix)
  then show ?thesis by (simp only: adjust_code_def if_True)
qed

lemma adjust_rightClick:
  "adjust_code (''pyautogui.rightClick('' @ str_int a @ '', '' @ str_int b @ '')'') x y =
     ''pyautogui.rightClick('' @ fmt x @ '', '' @ fmt y @ '')''"
proof -
  let ?code = "''pyautogui.rightClick('' @ str_int a @ '', '' @ str_int b @ '')''"
  have "CHR ''b'' \<notin> set ?code" by (simp add: str_int_notin)
  then have 1: "\<not> sublist ''doubleClick'' ?code" by (intro not_sublist_char [of "CHR ''b''"]) simp_all
  have "sublist ''rightClick'' ''pyautogui.rightClick(''"
    by (simp add: sublist_Cons_right)
  then have 2: "sublist ''rightClick'' ?code"
    by (rule sublist_in_prefix)
  show ?thesis using 1 2 by (simp only: adjust_code_def if_True if_False)
qed

lemma adjust_tripleClick:
  "adjust_code (''pyautogui.click('' @ str_int a @ '', '' @ str_int b @ '', clicks=3)'') x y =
     ''pyautogui.click('' @ fmt x @ '', '' @ fmt y @ '', clicks=3)''"
proof -
  let ?code = "''pyautogui.click('' @ str_int a @ '', '' @ str_int b @ '', clicks=3)''"
  have "CHR ''C'' \<notin> set ?code" by (simp add: str_int_notin)
  then have 1: "\<not> sublist ''doubleClick'' ?code" "\<not> sublist ''rightClick'' ?code"
    by (intro not_sublist_char [of "CHR ''C''"]; simp)+
  have "sublist ''clicks=3'' '', clicks=3)''"
    by (simp add: sublist_Cons_right)
  then have "sublist ''clicks=3'' ((''pyautogui.click('' @ str_int a @ '', '' @ str_int b) @ '', clicks=3)'')"
    by (rule sublist_in_suffix)
  then have 2: "sublist ''clicks=3'' ?code" by simp
  show ?thesis using 1 2 by (simp only: adjust_code_def if_True if_False)
qed

lemma adjust_click:
  "adjust_code (''pyautogui.click('' @ str_int a @ '', '' @ str_int b @ '')'') x y =
     ''pyautogui.click('' @ fmt x @ '', '' @ fmt y @ '')''"
proof -
  let ?code = "''pyautogui.click('' @ str_int a @ '', '' @ str_int b @ '')''"
  have "CHR ''C'' \<notin> set ?code" by (simp add: str_int_notin)
  then have 1: "\<not> sublist ''doubleClick'' ?code" "\<not> sublist ''rightClick'' ?code"
    by (intro not_sublist_char [of "CHR ''C''"]; simp)+
  have "CHR ''='' \<notin> set ?code" by (simp add: str_int_notin)
  then have 2: "\<not> sublist ''clicks=3'' ?code"
    by (intro not_sublist_char [of "CHR ''=''"]) simp_all
  have l: "lower ''pyautogui.click('' = ''pyautogui.click(''"
    by (simp add: lower_def lower_char_def)
  have "sublist ''click'' ''pyautogui.click(''"
    by (simp add: sublist_Cons_right)
  then have "sublist ''click'' (lower ''pyautogui.click('' @ lower (str_int a @ '', '' @ str_int b @ '')''))"
    unfolding l by (rule sublist_in_prefix)
  then have 3: "sublist ''click'' (lower ?code)"
    by (simp only: lower_append)
  have "sublist ''pyautogui.click'' ''pyautogui.click(''"
    by (simp add: sublist_Cons_right)
  then have 4: "sublist ''pyautogui.click'' ?code"
    by (rule sublist_in_prefix)
  show ?thesis using 1 2 3 4 by (simp only: adjust_code_def if_True if_False simp_thms)
qed

lemma adjust_drag_fallback:
  "adjust_code (''pyautogui.drag('' @ str_int a @ '', '' @ str_int b @ '')'') x y =
     ''pyautogui.drag('' @ str_int a @ '', '' @ str_int b @ '')''"
proof -
  let ?code = "''pyautogui.drag('' @ str_int a @ '', '' @ str_int b @ '')''"
  have "CHR ''C'' \<notin> set ?code" by (simp add: str_int_notin)
  then have 1: "\<not> sublist ''doubleClick'' ?code" "\<not> sublist ''rightClick'' ?code"
    by (intro not_sublist_char [of "CHR ''C''"]; simp)+
  have "CHR ''='' \<notin> set ?code" by (simp add: str_int_notin)
  then have 2: "\<not> sublist ''clicks=3'' ?code"
    by (intro not_sublist_char [of "CHR ''=''"]) simp_all
  have "CHR ''k'' \<notin> set ?code" by (simp add: str_int_notin)
  then have 3: "\<not> sublist ''pyautogui.click'' ?code"
    by (intro not_sublist_char [of "CHR ''k''"]) simp_all
  have "CHR ''m'' \<notin> set ?code" by (simp add: str_int_notin)
  then have 4: "\<not> sublist ''moveTo'' ?code"
    by (intro not_sublist_char [of "CHR ''m''"]) simp_all
  show ?thesis using 1 2 3 4 by (simp only: adjust_code_def if_True if_False simp_thms)
qed

lemma adjust_move_drag:
  assumes g: "digit_group g1" "digit_group g2" "digit_group g3" "digit_group g4"
  shows "adjust_code (''pyautogui.moveTo('' @ g1 @ '', '' @ g2 @ ''); pyautogui.dragTo(''
                        @ g3 @ '', '' @ g4 @ '')'') x y =
           ''pyautogui.moveTo('' @ fmt x @ '', '' @ fmt y @ ''); pyautogui.dragTo(''
             @ g3 @ '', '' @ g4 @ '')''"
proof -
  let ?code = "''pyautogui.moveTo('' @ g1 @ '', '' @ g2 @ ''); pyautogui.dragTo('' @ g3 @ '', '' @ g4 @ '')''"
  let ?p = "''pyautogui.moveTo('' @ g1 @ '', '' @ g2 @ ''); pyautogui.''"
  let ?s = "''dragTo('' @ g3 @ '', '' @ g4 @ '')''"
  have split: "?code = ?p @ ?s" by simp
  have "CHR ''C'' \<notin> set ?code" using g by (simp add: group_notin)
  then have 1: "\<not> sublist ''doubleClick'' ?code" "\<not> sublist ''rightClick'' ?code"
    by (intro not_sublist_char [of "CHR ''C''"]; simp)+
  have "CHR ''='' \<notin> set ?code" using g by (simp add: group_notin)
  then have 2: "\<not> sublist ''clicks=3'' ?code"
    by (intro not_sublist_char [of "CHR ''=''"]) simp_all
  have "CHR ''k'' \<notin> set ?code" using g by (simp add: group_notin)
  then have 3: "\<not> sublist ''pyautogui.click'' ?code"
    by (intro not_sublist_char [of "CHR ''k''"]) simp_all
  have "sublist ''moveTo'' ''pyautogui.moveTo(''"
    by (simp add: sublist_Cons_right)
  then have 4: "sublist ''moveTo'' ?code"
    by (rule sublist_in_prefix)
  have "sublist ''dragTo'' ''dragTo(''"
    by (simp add: sublist_Cons_right)
  then have "sublist ''dragTo'' (''dragTo('' @ g3 @ '', '' @ g4 @ '')'')"
    by (rule sublist_in_prefix)
  then have "sublist ''dragTo'' (?p @ ?s)"
    by (rule sublist_in_suffix)
  then have 5: "sublist ''dragTo'' ?code" by (simp only: split)
  have "re_search drag_to (?p @ ?s) = re_search drag_to ?s"
  proof (rule re_search_skip [where k = "CHR ''d''"])
    show "\<And>c cs g. drag_to (c # cs) = Some g \<Longrightarrow> c = CHR ''d''" by (rule drag_to_head)
    show "CHR ''d'' \<notin> set ?p" using g by (simp add: group_notin)
  qed
  moreover have "re_search drag_to ?s = Some (g3, g4)"
    using drag_to_match [OF g(3,4)] by simp
  ultimately have 6: "re_search drag_to ?code = Some (g3, g4)"
    by (simp only: split)
  show ?thesis using 1 2 3 4 5
    by (simp only: adjust_code_def if_True if_False simp_thms 6 option.case prod.case)
qed

lemma build_click:
  "build_pyautogui_code ''click'' event description =
     (if sublist ''double'' (lower description) then
        ''pyautogui.doubleClick('' @ str_int (fst (coord_xy event)) @ '', ''
          @ str_int (snd (coord_xy event)) @ '')''
      else if sublist ''right'' (lower description) then
        ''pyautogui.rightClick('' @ str_int (fst (coord_xy event)) @ '', ''
          @ str_int (snd (coord_xy event)) @ '')''
      else if sublist ''triple'' (lower description) then
        ''pyautogui.click('' @ str_int (fst (coord_xy event)) @ '', ''
          @ str_int (snd (coord_xy event)) @ '', clicks=3)''
      else ''pyautogui.click('' @ str_int (fst (coord_xy event)) @ '', ''
          @ str_int (snd (coord_xy event)) @ '')'')"
  by (simp add: build_pyautogui_code_def Let_def)

lemma build_drag:
  "build_pyautogui_code ''drag'' event description =
     (case re_search drag_from_to description of
        Some ((g1, g2), (g3, g4)) \<Rightarrow>
          ''pyautogui.moveTo('' @ g1 @ '', '' @ g2 @ ''); pyautogui.dragTo(''
            @ g3 @ '', '' @ g4 @ '')''
      | None \<Rightarrow> ''pyautogui.drag('' @ str_int (fst (coord_xy event)) @ '', ''
          @ str_int (snd (coord_xy event)) @ '')'')"
  by (simp add: build_pyautogui_code_def Let_def split: option.splits)

lemma adjust_built_click:
  "adjust_code (build_pyautogui_code ''click'' event description) x y =
     (if sublist ''double'' (lower description) then
        ''pyautogui.doubleClick('' @ fmt x @ '', '' @ fmt y @ '')''
      else if sublist ''right'' (lower description) then
        ''pyautogui.rightClick('' @ fmt x @ '', '' @ fmt y @ '')''
      else if sublist ''triple'' (lower description) then
        ''pyautogui.click('' @ fmt x @ '', '' @ fmt y @ '', clicks=3)''
      else ''pyautogui.click('' @ fmt x @ '', '' @ fmt y @ '')'')"
proof (cases "sublist ''double'' (lower description)")
  case True
  then show ?thesis by (simp only: build_click if_True adjust_doubleClick)
next
  case nd: False
  show ?thesis
  proof (cases "sublist ''right'' (lower description)")
    case True
    with nd show ?thesis by (simp only: build_click if_True if_False adjust_rightClick)
  next
    case nr: False
    show ?thesis
    proof (cases "sublist ''triple'' (lower description)")
      case True
      with nd nr show ?thesis by (simp only: build_click if_True if_False adjust_tripleClick)
    next
      case False
      with nd nr show ?thesis by (simp only: build_click if_True if_False adjust_click)
    qed
  qed
qed

lemma adjust_built_drag:
  assumes "re_search drag_from_to description = Some ((g1, g2), (g3, g4))"
  shows "adjust_code (build_pyautogui_code ''drag'' event description) x y =
           ''pyautogui.moveTo('' @ fmt x @ '', '' @ fmt y @ ''); pyautogui.dragTo(''
             @ g3 @ '', '' @ g4 @ '')''"
proof -
  from re_search_Some [OF assms] obtain t where "drag_from_to t = Some ((g1, g2), (g3, g4))" ..
  then have g: "digit_group g1" "digit_group g2" "digit_group g3" "digit_group g4"
    by (auto dest: drag_from_to_groups)
  have "build_pyautogui_code ''drag'' event description =
          ''pyautogui.moveTo('' @ g1 @ '', '' @ g2 @ ''); pyautogui.dragTo(''
            @ g3 @ '', '' @ g4 @ '')''"
    by (simp only: build_drag assms option.case prod.case)
  then show ?thesis by (simp only: adjust_move_drag [OF g])
qed

lemma build_step_index: "st_index (build_step vis_events video_start_ts i ce) = i"
  by (simp add: build_step_def Let_def)

lemma build_step_code:
  "ev_action ce = Some action \<Longrightarrow>
   st_code (build_step vis_events video_start_ts i ce) =
     build_pyautogui_code action ce (st_description (build_step vis_events video_start_ts i ce))"
  by (simp add: build_step_def Let_def)

lemma export_step_adjusted:
  "map_of coord_adjustments (adj_key task_id (int (st_index st))) = Some adj \<Longrightarrow>
   tr_code (export_step coord_adjustments task_id st) =
     adjust_code (st_code st) (adj_x adj) (adj_y adj)"
  by (simp add: export_step_def Let_def)

lemma adjust_step_adjusted:
  "map_of coord_adjustments (adj_key task_id (int (st_index st))) = Some adj \<Longrightarrow>
   st_code (adjust_step coord_adjustments task_id st) =
     adjust_code (st_code st) (adj_x adj) (adj_y adj)"
  by (simp add: adjust_step_def)

text \<open>
  C7 (the substitution keeps the variant). Let step \<open>i\<close> of a task have an entry \<open>adj\<close> in
  the overlay. The export (\<open>export_step\<close>) and the serving of the task (\<open>adjust_step\<close>) give
  the step the same code. For a click, whose code \<^verbatim>\<open>build_pyautogui_code\<close> made a double,
  right, triple or plain click as the description decided at synthesis, that code is the
  same form at the coordinates of \<open>adj\<close>. For a drag whose description matched, the code
  was a \<^verbatim>\<open>moveTo\<close>/\<^verbatim>\<open>dragTo\<close> pair with the groups of the match; afterwards the \<^verbatim>\<open>moveTo\<close>
  half has the coordinates of \<open>adj\<close> and the \<^verbatim>\<open>dragTo\<close> target is still \<open>(g3, g4)\<close>. The
  substitution reads the code only: \<open>adjust_code\<close> has no description argument. In
  particular \<^verbatim>\<open>doubleClick(100, 200)\<close> adjusted to \<open>(150, 250)\<close> is \<^verbatim>\<open>doubleClick(150, 250)\<close>.
\<close>

theorem substitution_preserves_variant:
  assumes "map_of coord_adjustments (adj_key task_id (int i)) = Some adj"
  shows "tr_code (export_step coord_adjustments task_id
                    (build_step vis_events video_start_ts i ce)) =
           st_code (adjust_step coord_adjustments task_id
                      (build_step vis_events video_start_ts i ce))
       \<and> (ev_action ce = Some ''click'' \<longrightarrow>
            st_code (adjust_step coord_adjustments task_id
                       (build_step vis_events video_start_ts i ce)) =
              (if sublist ''double''
                    (lower (st_description (build_step vis_events video_start_ts i ce))) then
                 ''pyautogui.doubleClick('' @ fmt (adj_x adj) @ '', '' @ fmt (adj_y adj) @ '')''
               else if sublist ''right''
                    (lower (st_description (build_step vis_events video_start_ts i ce))) then
                 ''pyautogui.rightClick('' @ fmt (adj_x adj) @ '', '' @ fmt (adj_y adj) @ '')''
               else if sublist ''triple''
                    (lower (st_description (build_step vis_events video_start_ts i ce))) then
                 ''pyautogui.click('' @ fmt (adj_x adj) @ '', '' @ fmt (adj_y adj)
                   @ '', clicks=3)''
               else ''pyautogui.click('' @ fmt (adj_x adj) @ '', '' @ fmt (adj_y adj) @ '')''))
       \<and> (ev_action ce = Some ''drag''
            \<and> re_search drag_from_to
                  (st_description (build_step vis_events video_start_ts i ce)) =
                Some ((g1, g2), (g3, g4)) \<longrightarrow>
            st_code (build_step vis_events video_start_ts i ce) =
              ''pyautogui.moveTo('' @ g1 @ '', '' @ g2 @ ''); pyautogui.dragTo(''
                @ g3 @ '', '' @ g4 @ '')''
            \<and> st_code (adjust_step coord_adjustments task_id
                         (build_step vis_events video_start_ts i ce)) =
              ''pyautogui.moveTo('' @ fmt (adj_x adj) @ '', '' @ fmt (adj_y adj)
                @ ''); pyautogui.dragTo('' @ g3 @ '', '' @ g4 @ '')'')
       \<and> adjust_code ''pyautogui.doubleClick(100, 200)'' (Some 150) (Some 250) =
            ''pyautogui.doubleClick(150, 250)''"
proof -
  let ?st = "build_step vis_events video_start_ts i ce"
  from assms have key: "map_of coord_adjustments (adj_key task_id (int (st_index ?st))) = Some adj"
    by (simp only: build_step_index)
  have ex: "tr_code (export_step coord_adjustments task_id ?st) =
              adjust_code (st_code ?st) (adj_x adj) (adj_y adj)"
    by (rule export_step_adjusted [OF key])
  have ad: "st_code (adjust_step coord_adjustments task_id ?st) =
              adjust_code (st_code ?st) (adj_x adj) (adj_y adj)"
    by (rule adjust_step_adjusted [OF key])
  have 1: "tr_code (export_step coord_adjustments task_id ?st) =
             st_code (adjust_step coord_adjustments task_id ?st)"
    by (simp only: ex ad)
  have 2: "st_code (adjust_step coord_adjustments task_id ?st) =
              (if sublist ''double'' (lower (st_description ?st)) then
                 ''pyautogui.doubleClick('' @ fmt (adj_x adj) @ '', '' @ fmt (adj_y adj) @ '')''
               else if sublist ''right'' (lower (st_description ?st)) then
                 ''pyautogui.rightClick('' @ fmt (adj_x adj) @ '', '' @ fmt (adj_y adj) @ '')''
               else if sublist ''triple'' (lower (st_description ?st)) then
                 ''pyautogui.click('' @ fmt (adj_x adj) @ '', '' @ fmt (adj_y adj)
                   @ '', clicks=3)''
               else ''pyautogui.click('' @ fmt (adj_x adj) @ '', '' @ fmt (adj_y adj) @ '')'')"
    if "ev_action ce = Some ''click''"
    by (simp only: ad build_step_code [OF that] adjust_built_click)
  have 3: "st_code ?st =
              ''pyautogui.moveTo('' @ g1 @ '', '' @ g2 @ ''); pyautogui.dragTo(''
                @ g3 @ '', '' @ g4 @ '')''
            \<and> st_code (adjust_step coord_adjustments task_id ?st) =
              ''pyautogui.moveTo('' @ fmt (adj_x adj) @ '', '' @ fmt (adj_y adj)
                @ ''); pyautogui.dragTo('' @ g3 @ '', '' @ g4 @ '')''"
    if a: "ev_action ce = Some ''drag''"
      and m: "re_search drag_from_to (st_description ?st) = Some ((g1, g2), (g3, g4))"
  proof
    show "st_code ?st =
              ''pyautogui.moveTo('' @ g1 @ '', '' @ g2 @ ''); pyautogui.dragTo(''
                @ g3 @ '', '' @ g4 @ '')''"
      by (simp only: build_step_code [OF a] build_drag m option.case prod.case)
    show "st_code (adjust_step coord_adjustments task_id ?st) =
              ''pyautogui.moveTo('' @ fmt (adj_x adj) @ '', '' @ fmt (adj_y adj)
                @ ''); pyautogui.dragTo('' @ g3 @ '', '' @ g4 @ '')''"
      by (simp only: ad build_step_code [OF a] adjust_built_drag [OF m])
  qed
  have 4: "adjust_code ''pyautogui.doubleClick(100, 200)'' (Some 150) (Some 250) =
            ''pyautogui.doubleClick(150, 250)''"
    by code_simp
  from 1 2 3 4 show ?thesis by blast
qed

text \<open>
  Task \<open>7\<close> with overlay entries for its steps \<open>0\<close> and \<open>1\<close>: a double click at
  \<open>(100, 200)\<close> moved to \<open>(150, 250)\<close>, and a drag from \<open>(10, 20)\<close> to \<open>(300, 40)\<close> whose
  start is moved to \<open>(15, 25)\<close>.
\<close>

theorem substitution_preserves_variant_witness:
  "tr_code (export_step
       [(''7_0'', \<lparr>adj_task_id = ''7'', adj_step_index = 0, adj_x = Some 150, adj_y = Some 250,
                  adj_original = Some \<lparr>pt_x = Some 100, pt_y = Some 200\<rparr>\<rparr>),
        (''7_1'', \<lparr>adj_task_id = ''7'', adj_step_index = 1, adj_x = Some 15, adj_y = Some 25,
                  adj_original = Some \<lparr>pt_x = Some 10, pt_y = Some 20\<rparr>\<rparr>)]
       ''7''
       (build_step [] 0 0
          \<lparr>ev_action = Some ''click'', ev_coordinate = Some \<lparr>pt_x = Some 100, pt_y = Some 200\<rparr>,
           ev_start_time = Some 9, ev_pre_move = None,
           ev_description = Some ''Double click the icon'', ev_justification = None\<rparr>))
     = ''pyautogui.doubleClick(150, 250)''
   \<and> st_code (build_step [] 0 1
          \<lparr>ev_action = Some ''drag'', ev_coordinate = Some \<lparr>pt_x = Some 10, pt_y = Some 20\<rparr>,
           ev_start_time = Some 12, ev_pre_move = None,
           ev_description = Some ''Drag from (10, 20) to (300, 40)'', ev_justification = None\<rparr>)
     = ''pyautogui.moveTo(10, 20); pyautogui.dragTo(300, 40)''
   \<and> tr_code (export_step
       [(''7_0'', \<lparr>adj_task_id = ''7'', adj_step_index = 0, adj_x = Some 150, adj_y = Some 250,
                  adj_original = Some \<lparr>pt_x = Some 100, pt_y = Some 200\<rparr>\<rparr>),
        (''7_1'', \<lparr>adj_task_id = ''7'', adj_step_index = 1, adj_x = Some 15, adj_y = Some 25,
                  adj_original = Some \<lparr>pt_x = Some 10, pt_y = Some 20\<rparr>\<rparr>)]
       ''7''
       (build_step [] 0 1
          \<lparr>ev_action = Some ''drag'', ev_coordinate = Some \<lparr>pt_x = Some 10, pt_y = Some 20\<rparr>,
           ev_start_time = Some 12, ev_pre_move = None,
           ev_description = Some ''Drag from (10, 20) to (300, 40)'', ev_justification = None\<rparr>))
     = ''pyautogui.moveTo(15, 25); pyautogui.dragTo(300, 40)''"
proof -
  let ?a0 = "\<lparr>adj_task_id = ''7'', adj_step_index = 0, adj_x = Some 150, adj_y = Some 250,
                  adj_original = Some \<lparr>pt_x = Some 100, pt_y = Some 200\<rparr>\<rparr>"
  let ?a1 = "\<lparr>adj_task_id = ''7'', adj_step_index = 1, adj_x = Some 15, adj_y = Some 25,
                  adj_original = Some \<lparr>pt_x = Some 10, pt_y = Some 20\<rparr>\<rparr>"
  let ?store = "[(''7_0'', ?a0), (''7_1'', ?a1)]"
  let ?click = "\<lparr>ev_action = Some ''click'', ev_coordinate = Some \<lparr>pt_x = Some 100, pt_y = Some 200\<rparr>,
           ev_start_time = Some 9, ev_pre_move = None,
           ev_description = Some ''Double click the icon'', ev_justification = None\<rparr>"
  let ?drag = "\<lparr>ev_action = Some ''drag'', ev_coordinate = Some \<lparr>pt_x = Some 10, pt_y = Some 20\<rparr>,
           ev_start_time = Some 12, ev_pre_move = None,
           ev_description = Some ''Drag from (10, 20) to (300, 40)'', ev_justification = None\<rparr>"
  have k0: "map_of ?store (adj_key ''7'' (int 0)) = Some ?a0"
    by (simp add: adj_key_def str_int_def str_nat.simps)
  have k1: "map_of ?store (adj_key ''7'' (int 1)) = Some ?a1"
    by (simp add: adj_key_def str_int_def str_nat.simps)
  have d0: "st_description (build_step [] 0 0 ?click) = ''Double click the icon''"
    by (simp add: build_step_def Let_def step_description_def)
  have d1: "st_description (build_step [] 0 1 ?drag) = ''Drag from (10, 20) to (300, 40)''"
    by (simp add: build_step_def Let_def step_description_def)
  have dbl: "sublist ''double'' (lower ''Double click the icon'')"
    by code_simp
  have m: "re_search drag_from_to ''Drag from (10, 20) to (300, 40)'' =
     Some ((''10'', ''20''), (''300'', ''40''))"
    by code_simp
  have f: "fmt (Some 150) = ''150''" "fmt (Some 250) = ''250''"
    "fmt (Some 15) = ''15''" "fmt (Some 25) = ''25''"
    by (simp_all add: fmt_def str_int_def str_nat.simps)
  note c = substitution_preserves_variant [OF k0, of "[]" 0 ?click]
  note d = substitution_preserves_variant [OF k1, of "[]" 0 ?drag "''10''" "''20''" "''300''" "''40''"]
  have a0: "ev_action ?click = Some ''click''" and a1: "ev_action ?drag = Some ''drag''"
    by simp_all
  have dbl': "sublist ''double'' (lower (st_description (build_step [] 0 0 ?click)))"
    by (simp only: d0 dbl)
  have m': "re_search drag_from_to (st_description (build_step [] 0 1 ?drag)) =
     Some ((''10'', ''20''), (''300'', ''40''))"
    by (simp only: d1 m)
  from c a0 have "tr_code (export_step ?store ''7'' (build_step [] 0 0 ?click)) =
      (if sublist ''double'' (lower (st_description (build_step [] 0 0 ?click))) then
         ''pyautogui.doubleClick('' @ fmt (Some 150) @ '', '' @ fmt (Some 250) @ '')''
       else if sublist ''right'' (lower (st_description (build_step [] 0 0 ?click))) then
         ''pyautogui.rightClick('' @ fmt (Some 150) @ '', '' @ fmt (Some 250) @ '')''
       else if sublist ''triple'' (lower (st_description (build_step [] 0 0 ?click))) then
         ''pyautogui.click('' @ fmt (Some 150) @ '', '' @ fmt (Some 250) @ '', clicks=3)''
       else ''pyautogui.click('' @ fmt (Some 150) @ '', '' @ fmt (Some 250) @ '')'')"
    by (simp only: adjustment.simps; blast)
  then have 1: "tr_code (export_step ?store ''7'' (build_step [] 0 0 ?click)) =
      ''pyautogui.doubleClick(150, 250)''"
    by (simp only: dbl' if_True f append_Cons append_Nil)
  from d a1 m' have "st_code (build_step [] 0 1 ?drag) =
      ''pyautogui.moveTo('' @ ''10'' @ '', '' @ ''20'' @ ''); pyautogui.dragTo(''
                @ ''300'' @ '', '' @ ''40'' @ '')''
    \<and> tr_code (export_step ?store ''7'' (build_step [] 0 1 ?drag)) =
      ''pyautogui.moveTo('' @ fmt (Some 15) @ '', '' @ fmt (Some 25)
                @ ''); pyautogui.dragTo('' @ ''300'' @ '', '' @ ''40'' @ '')''"
    by (simp only: adjustment.simps; blast)
  then have 2: "st_code (build_step [] 0 1 ?drag) =
      ''pyautogui.moveTo(10, 20); pyautogui.dragTo(300, 40)''"
    and 3: "tr_code (export_step ?store ''7'' (build_step [] 0 1 ?drag)) =
      ''pyautogui.moveTo(15, 25); pyautogui.dragTo(300, 40)''"
    by (simp_all only: f append_Cons append_Nil)
  from 1 2 3 show ?thesis by (intro conjI)
qed

text \<open>
  C10 (the fallback drag code is never adjusted). For a drag event whose description does
  not match the \<^verbatim>\<open>Drag from (x1,y1) to (x2,y2)\<close> pattern, the step's code is
  \<^verbatim>\<open>pyautogui.drag(x, y)\<close>; no test of the adjustment applies to it, so the code stays as it
  is for every adjusted coordinate, in the export (\<open>export_step\<close>) and when the task is
  served (\<open>adjust_step\<close>), whatever the overlay holds. The step has a coordinate marker
  exactly when its coordinate is not \<open>(0, 0)\<close>.
\<close>

theorem drag_fallback_not_adjusted:
  assumes "ev_action ce = Some ''drag''"
    and "re_search drag_from_to (st_description (build_step vis_events video_start_ts i ce)) = None"
  shows "st_code (build_step vis_events video_start_ts i ce) =
           ''pyautogui.drag('' @ str_int (fst (coord_xy ce)) @ '', '' @ str_int (snd (coord_xy ce)) @ '')''
       \<and> adjust_code (st_code (build_step vis_events video_start_ts i ce)) x y =
           st_code (build_step vis_events video_start_ts i ce)
       \<and> tr_code (export_step coord_adjustments task_id (build_step vis_events video_start_ts i ce)) =
           st_code (build_step vis_events video_start_ts i ce)
       \<and> st_code (adjust_step coord_adjustments task_id (build_step vis_events video_start_ts i ce)) =
           st_code (build_step vis_events video_start_ts i ce)
       \<and> st_has_coordinate (build_step vis_events video_start_ts i ce) =
           (fst (coord_xy ce) \<noteq> 0 \<or> snd (coord_xy ce) \<noteq> 0)"
proof -
  let ?st = "build_step vis_events video_start_ts i ce"
  have code: "st_code ?st = build_pyautogui_code ''drag'' ce (st_description ?st)"
    using assms(1) by (simp add: build_step_def Let_def)
  have 1: "st_code ?st = ''pyautogui.drag('' @ str_int (fst (coord_xy ce)) @ '', ''
              @ str_int (snd (coord_xy ce)) @ '')''"
    by (simp only: code build_drag assms(2) option.case)
  have 2: "adjust_code (st_code ?st) x y = st_code ?st" for x y
    by (simp only: 1 adjust_drag_fallback)
  have 3: "tr_code (export_step coord_adjustments task_id ?st) = st_code ?st"
    by (simp add: export_step_def Let_def 2 split: option.splits)
  have 4: "st_code (adjust_step coord_adjustments task_id ?st) = st_code ?st"
    by (simp add: adjust_step_def 2 split: option.splits)
  have 5: "st_has_coordinate ?st = (fst (coord_xy ce) \<noteq> 0 \<or> snd (coord_xy ce) \<noteq> 0)"
    using assms(1) by (simp add: build_step_def Let_def)
  from 1 2 3 4 5 show ?thesis by blast
qed

text \<open>
  Step \<open>3\<close> of task \<open>7\<close>, a drag at \<open>(100, 200)\<close> with a free-text description and an overlay
  entry that moves it to \<open>(150, 250)\<close>: the step has a coordinate marker, and the exported
  code still has \<open>(100, 200)\<close>.
\<close>

theorem drag_fallback_not_adjusted_witness:
  "ev_action \<lparr>ev_action = Some ''drag'', ev_coordinate = Some \<lparr>pt_x = Some 100, pt_y = Some 200\<rparr>,
          ev_start_time = Some 9, ev_pre_move = None,
          ev_description = Some ''Drag the slider'', ev_justification = None\<rparr> = Some ''drag''
   \<and> re_search drag_from_to (st_description (build_step [] 0 3
         \<lparr>ev_action = Some ''drag'', ev_coordinate = Some \<lparr>pt_x = Some 100, pt_y = Some 200\<rparr>,
          ev_start_time = Some 9, ev_pre_move = None,
          ev_description = Some ''Drag the slider'', ev_justification = None\<rparr>)) = None
   \<and> st_has_coordinate (build_step [] 0 3
         \<lparr>ev_action = Some ''drag'', ev_coordinate = Some \<lparr>pt_x = Some 100, pt_y = Some 200\<rparr>,
          ev_start_time = Some 9, ev_pre_move = None,
          ev_description = Some ''Drag the slider'', ev_justification = None\<rparr>)
   \<and> map_of [(''7_3'', \<lparr>adj_task_id = ''7'', adj_step_index = 3, adj_x = Some 150,
                 adj_y = Some 250, adj_original = Some \<lparr>pt_x = Some 100, pt_y = Some 200\<rparr>\<rparr>)]
        (adj_key ''7'' 3)
       = Some \<lparr>adj_task_id = ''7'', adj_step_index = 3, adj_x = Some 150,
                 adj_y = Some 250, adj_original = Some \<lparr>pt_x = Some 100, pt_y = Some 200\<rparr>\<rparr>
   \<and> tr_code (export_step
         [(''7_3'', \<lparr>adj_task_id = ''7'', adj_step_index = 3, adj_x = Some 150,
                 adj_y = Some 250, adj_original = Some \<lparr>pt_x = Some 100, pt_y = Some 200\<rparr>\<rparr>)]
         ''7''
         (build_step [] 0 3
           \<lparr>ev_action = Some ''drag'', ev_coordinate = Some \<lparr>pt_x = Some 100, pt_y = Some 200\<rparr>,
            ev_start_time = Some 9, ev_pre_move = None,
            ev_description = Some ''Drag the slider'', ev_justification = None\<rparr>))
       = ''pyautogui.drag(100, 200)''"
proof -
  let ?ce = "\<lparr>ev_action = Some ''drag'', ev_coordinate = Some \<lparr>pt_x = Some 100, pt_y = Some 200\<rparr>,
          ev_start_time = Some 9, ev_pre_move = None,
          ev_description = Some ''Drag the slider'', ev_justification = None\<rparr>"
  let ?store = "[(''7_3'', \<lparr>adj_task_id = ''7'', adj_step_index = 3, adj_x = Some 150,
                 adj_y = Some 250, adj_original = Some \<lparr>pt_x = Some 100, pt_y = Some 200\<rparr>\<rparr>)]"
  have a: "ev_action ?ce = Some ''drag''" by simp
  have d: "st_description (build_step [] 0 3 ?ce) = ''Drag the slider''"
    by (simp add: build_step_def Let_def step_description_def)
  have s: "re_search drag_from_to ''Drag the slider'' = None" by code_simp
  have b: "re_search drag_from_to (st_description (build_step [] 0 3 ?ce)) = None"
    by (simp only: d s)
  have k: "adj_key ''7'' 3 = ''7_3''"
    by (simp add: adj_key_def str_int_def str_nat.simps)
  have c: "coord_xy ?ce = (100, 200)" by (simp add: coord_xy_def)
  have n: "str_int 100 = ''100''" "str_int 200 = ''200''"
    by (simp_all add: str_int_def str_nat.simps)
  from drag_fallback_not_adjusted [of ?ce "[]" 0 3 "Some 150" "Some 250" ?store "''7''", OF a b]
  show ?thesis using a b by (simp add: c n k)
qed

subsection \<open>The annotation store\<close>

text \<open>
  C8 (annotate replaces one record). After \<^verbatim>\<open>api_annotate\<close> the record of the request's
  task is exactly the request's mark, reason and scores (\<^verbatim>\<open>''\<close> and \<^verbatim>\<open>{}\<close> for a missing
  reason or scores), whatever was stored before and whatever the mark is; the record of
  every other task is as it was.
\<close>

theorem annotate_full_replace:
  "map_of (api_annotate annotations r) (ar_task_id r) =
     Some \<lparr>ann_mark = ar_mark r,
           ann_pass_reason = (case ar_pass_reason r of None \<Rightarrow> [] | Some p \<Rightarrow> p),
           ann_scores = (case ar_scores r of None \<Rightarrow> [] | Some sc \<Rightarrow> sc)\<rparr>
   \<and> (\<forall>t. t \<noteq> ar_task_id r \<longrightarrow> map_of (api_annotate annotations r) t = map_of annotations t)"
  by (simp add: api_annotate_def update_conv')

text \<open>
  Task \<open>1\<close>, marked pass with a reason and a score, is set to the unset mark with no
  reason and no scores: nothing of the old record is left, and task \<open>2\<close> is untouched.
\<close>

theorem annotate_full_replace_witness:
  "map_of (api_annotate
       [(''1'', \<lparr>ann_mark = Some ''pass'', ann_pass_reason = ''good'', ann_scores = [(''correctness'', 5)]\<rparr>),
        (''2'', \<lparr>ann_mark = Some ''fail'', ann_pass_reason = ''bad'', ann_scores = []\<rparr>)]
       \<lparr>ar_task_id = ''1'', ar_mark = None, ar_pass_reason = Some [], ar_scores = Some []\<rparr>) ''1''
     = Some \<lparr>ann_mark = None, ann_pass_reason = [], ann_scores = []\<rparr>
   \<and> map_of (api_annotate
       [(''1'', \<lparr>ann_mark = Some ''pass'', ann_pass_reason = ''good'', ann_scores = [(''correctness'', 5)]\<rparr>),
        (''2'', \<lparr>ann_mark = Some ''fail'', ann_pass_reason = ''bad'', ann_scores = []\<rparr>)]
       \<lparr>ar_task_id = ''1'', ar_mark = None, ar_pass_reason = Some [], ar_scores = Some []\<rparr>) ''2''
     = Some \<lparr>ann_mark = Some ''fail'', ann_pass_reason = ''bad'', ann_scores = []\<rparr>"
  using annotate_full_replace
      [of "[(''1'', \<lparr>ann_mark = Some ''pass'', ann_pass_reason = ''good'', ann_scores = [(''correctness'', 5)]\<rparr>),
            (''2'', \<lparr>ann_mark = Some ''fail'', ann_pass_reason = ''bad'', ann_scores = []\<rparr>)]"
          "\<lparr>ar_task_id = ''1'', ar_mark = None, ar_pass_reason = Some [], ar_scores = Some []\<rparr>"]
  by simp

subsection \<open>The export\<close>











lemma task_json_path_hd: "hd (task_json_path t) = CHR ''t''"
  by (simp add: task_json_path_def)

















lemma export_count:
  "ex_count (api_export data tasks annotations coord_file grab out_dir) =
     length (passed_tasks annotations)"
  by (simp add: api_export_def Let_def)


text \<open>
  C6 (the reported count). The count and the message are computed from the selected
  tasks, not from the records written. With one task marked pass and no data directory
  for it, the loop skips the task: no per-task file is written and the combined file is
  empty, while the response reports the count \<open>1\<close> and \<^verbatim>\<open>Exported 1 passed cases\<close>.
\<close>

theorem export_count_includes_skipped:
  "ex_count (api_export (\<lambda>t. None) []
       [(''1'', \<lparr>ann_mark = Some ''pass'', ann_pass_reason = ''ok'', ann_scores = []\<rparr>)]
       None (\<lambda>v t. True) Map.empty) = 1
   \<and> ex_message (api_export (\<lambda>t. None) []
       [(''1'', \<lparr>ann_mark = Some ''pass'', ann_pass_reason = ''ok'', ann_scores = []\<rparr>)]
       None (\<lambda>v t. True) Map.empty) = ''Exported 1 passed cases''
   \<and> ex_task_files (api_export (\<lambda>t. None) []
       [(''1'', \<lparr>ann_mark = Some ''pass'', ann_pass_reason = ''ok'', ann_scores = []\<rparr>)]
       None (\<lambda>v t. True) Map.empty) = []
   \<and> ex_all_tasks (api_export (\<lambda>t. None) []
       [(''1'', \<lparr>ann_mark = Some ''pass'', ann_pass_reason = ''ok'', ann_scores = []\<rparr>)]
       None (\<lambda>v t. True) Map.empty) = []
   \<and> ex_output_dir (api_export (\<lambda>t. None) []
       [(''1'', \<lparr>ann_mark = Some ''pass'', ann_pass_reason = ''ok'', ann_scores = []\<rparr>)]
       None (\<lambda>v t. True) Map.empty) ''all_tasks.json'' = Some (AllTasksJson [])
   \<and> ex_output_dir (api_export (\<lambda>t. None) []
       [(''1'', \<lparr>ann_mark = Some ''pass'', ann_pass_reason = ''ok'', ann_scores = []\<rparr>)]
       None (\<lambda>v t. True) Map.empty) ''task_1/task_1.json'' = None"
  by (simp add: api_export_def Let_def passed_tasks_def export_task_def load_task_data_def
        str_nat.simps written_files_def write_file_def)

end
